theory Spec2Isabelle
  imports Complex_Main "HOL-Library.Sublist"
begin

section \<open>JavaScript strings\<close>

text \<open>
  A JavaScript string is a sequence of UTF-16 code units. The development covers the code
  units below 256 (Basic Latin and Latin-1 Supplement), one \<^typ>\<open>char\<close> each, so
  \<open>length\<close> is the JavaScript \<open>.length\<close> and \<open>take n\<close> is \<open>.slice(0, n)\<close>.
\<close>

definition toLowerCase_char :: "char \<Rightarrow> char" where
  "toLowerCase_char c =
     (let n = (of_char c :: nat)
      in if (65 \<le> n \<and> n \<le> 90) \<or> (192 \<le> n \<and> n \<le> 222 \<and> n \<noteq> 215)
         then char_of (n + 32) else c)"

definition toLowerCase :: "string \<Rightarrow> string" where
  "toLowerCase s = map toLowerCase_char s"

text \<open>\<open>c.toUpperCase()\<close> for a word character \<open>c\<close> (a letter of \<open>a-z\<close> changes, the
  others of \<open>[A-Za-z0-9_]\<close> stay).\<close>

definition toUpperCase_char :: "char \<Rightarrow> char" where
  "toUpperCase_char c =
     (let n = (of_char c :: nat)
      in if 97 \<le> n \<and> n \<le> 122 then char_of (n - 32) else c)"

text \<open>White space and line terminators removed by \<open>String.prototype.trim\<close>:
  TAB, LF, VT, FF, CR, SPACE and NBSP are the ones below 256.\<close>

definition isWhiteSpace :: "char \<Rightarrow> bool" where
  "isWhiteSpace c = ((of_char c :: nat) \<in> {9, 10, 11, 12, 13, 32, 160})"

definition trim :: "string \<Rightarrow> string" where
  "trim s = rev (dropWhile isWhiteSpace (rev (dropWhile isWhiteSpace s)))"

definition slice0 :: "string \<Rightarrow> nat \<Rightarrow> string" where
  "slice0 s n = take n s"

definition startsWith :: "string \<Rightarrow> string \<Rightarrow> bool" where
  "startsWith s p = (take (length p) s = p)"

fun String_includes :: "string \<Rightarrow> string \<Rightarrow> bool" where
  "String_includes [] f = (f = [])"
| "String_includes (c # cs) f = (startsWith (c # cs) f \<or> String_includes cs f)"

text \<open>\<open>s.split(sep)\<close> for a one-character separator: always at least one piece.\<close>

fun split_at :: "char \<Rightarrow> string \<Rightarrow> string list" where
  "split_at sep [] = [] # []"
| "split_at sep (c # cs) =
     (if c = sep then [] # split_at sep cs
      else (case split_at sep cs of
              p # ps \<Rightarrow> (c # p) # ps
            | [] \<Rightarrow> [c] # []))"

text \<open>Decimal rendering of a non-negative integer, as a template literal does.\<close>

fun digits_of :: "nat \<Rightarrow> string" where
  "digits_of n =
     (if n < 10 then [char_of (48 + n)]
      else digits_of (n div 10) @ [char_of (48 + n mod 10)])"

declare digits_of.simps [simp del]

section \<open>Regular expressions of the keyword registry\<close>

text \<open>
  \<open>new RegExp(kw)\<close> without flags. The registry's patterns use literal characters and
  \<open>.*\<close> only; a dot matches any character but a line terminator. A pattern is taken from
  its source text: \<open>.*\<close> becomes \<open>AnyStar\<close>, a lone dot \<open>AnyChar\<close>, every other
  character a literal. The remaining metacharacters do not occur in the registry.
\<close>

datatype re_atom = Lit char | AnyChar | AnyStar

fun RegExp :: "string \<Rightarrow> re_atom list" where
  "RegExp [] = []"
| "RegExp [c] = [if c = CHR ''.'' then AnyChar else Lit c]"
| "RegExp (c # d # ds) =
     (if c = CHR ''.'' \<and> d = CHR ''*'' then AnyStar # RegExp ds
      else (if c = CHR ''.'' then AnyChar else Lit c) # RegExp (d # ds))"

definition isLineTerminator :: "char \<Rightarrow> bool" where
  "isLineTerminator c = ((of_char c :: nat) \<in> {10, 13})"

text \<open>Does the pattern match a prefix of the text?\<close>

fun match_here :: "re_atom list \<Rightarrow> string \<Rightarrow> bool" where
  "match_here [] s = True"
| "match_here (Lit c # r) [] = False"
| "match_here (Lit c # r) (x # xs) = (x = c \<and> match_here r xs)"
| "match_here (AnyChar # r) [] = False"
| "match_here (AnyChar # r) (x # xs) = (\<not> isLineTerminator x \<and> match_here r xs)"
| "match_here (AnyStar # r) [] = match_here r []"
| "match_here (AnyStar # r) (x # xs) =
     (match_here r (x # xs) \<or> (\<not> isLineTerminator x \<and> match_here (AnyStar # r) xs))"

text \<open>\<open>re.test(s)\<close>: a match starting at some position of the text.\<close>

fun test :: "re_atom list \<Rightarrow> string \<Rightarrow> bool" where
  "test r [] = match_here r []"
| "test r (x # xs) = (match_here r (x # xs) \<or> test r xs)"

section \<open>Topic classifier\<close>

definition topicKeywords :: "(string \<times> string list) list" where
  "topicKeywords =
   [(''jellyfish'', [''jellyfish'', ''medusa'', ''cnidarian'']),
    (''octopus'', [''octopus'', ''octopi'', ''octopuses'', ''cephalopod'']),
    (''eiffel tower'', [''eiffel tower'', ''gustave eiffel'']),
    (''honey'', [''honey never spoils'', ''honey doesn'' @ [CHR 0x27] @ ''t expire'',
                 ''honey found in tombs'']),
    (''bananas'', [''bananas are berries'', ''banana is a berry'', ''banana.*radioactive'']),
    (''cleopatra'', [''cleopatra.*pyramid'', ''cleopatra.*moon landing'',
                     ''cleopatra.*closer in time'']),
    (''oxford university'', [''oxford.*university.*aztec'', ''oxford.*older'']),
    (''mantis shrimp'', [''mantis shrimp'']),
    (''tardigrade'', [''tardigrade'', ''water bear'']),
    (''venus'', [''venus.*day.*year'', ''venus.*longer'']),
    (''blue whale'', [''blue whale.*heart'', ''blue whale.*tongue'']),
    (''shakespeare'', [''shakespeare.*invented'', ''shakespeare.*words'']),
    (''dna'', [''share.*dna.*banana'', ''dna.*banana'']),
    (''space'', [''neutron star'', ''teaspoon.*star'', ''space.*silent'']),
    (''platypus'', [''platypus'']),
    (''sloths'', [''sloth'']),
    (''trees'', [''more trees.*stars'', ''trees on earth.*stars'']),
    (''anglo-zanzibar war'', [''anglo-zanzibar'', ''zanzibar war'', ''shortest war'',
                              ''shortest recorded war''])]"

text \<open>The inner loop: the first keyword that matches ends it (\<open>break\<close>).\<close>

fun any_keyword :: "string list \<Rightarrow> string \<Rightarrow> bool" where
  "any_keyword [] lower = False"
| "any_keyword (kw # kws) lower =
     (if test (RegExp kw) lower then True else any_keyword kws lower)"

text \<open>The outer loop over \<open>Object.entries(topicKeywords)\<close>, pushing onto \<open>topics\<close>.\<close>

fun topics_loop :: "(string \<times> string list) list \<Rightarrow> string \<Rightarrow> string list \<Rightarrow> string list" where
  "topics_loop [] lower topics = topics"
| "topics_loop ((topic, keywords) # rest) lower topics =
     topics_loop rest lower
       (if any_keyword keywords lower then topics @ [topic] else topics)"

definition detectTopics :: "string \<Rightarrow> string list" where
  "detectTopics text = topics_loop topicKeywords (toLowerCase text) []"

section \<open>RegExp objects and their state\<close>

text \<open>
  A \<open>RegExp\<close> is an object with state: \<open>test\<close> starts at \<open>lastIndex\<close> and writes it
  when the object has the flag \<open>g\<close> or \<open>y\<close>, so that two calls on one such object may
  differ. The objects live in a heap; an address is a position in it, and the address
  that \<open>new_RegExp\<close> returns is valid in every later heap.
\<close>

record RegExpObject =
  pattern :: "re_atom list"
  global :: bool
  sticky :: bool
  lastIndex :: nat

type_synonym heap = "RegExpObject list"

text \<open>\<open>new RegExp(kw)\<close>: no flags, \<open>lastIndex\<close> 0.\<close>

definition new_RegExp :: "string \<Rightarrow> heap \<Rightarrow> nat \<times> heap" where
  "new_RegExp kw h =
     (length h, h @ [\<lparr>pattern = RegExp kw, global = False, sticky = False, lastIndex = 0\<rparr>])"

text \<open>The length of the match at the start of the text that backtracking finds first
  (\<open>.*\<close> is greedy), if there is one.\<close>

fun match_end :: "re_atom list \<Rightarrow> string \<Rightarrow> nat option" where
  "match_end [] s = Some 0"
| "match_end (Lit c # r) [] = None"
| "match_end (Lit c # r) (x # xs) = (if x = c then map_option Suc (match_end r xs) else None)"
| "match_end (AnyChar # r) [] = None"
| "match_end (AnyChar # r) (x # xs) =
     (if isLineTerminator x then None else map_option Suc (match_end r xs))"
| "match_end (AnyStar # r) [] = match_end r []"
| "match_end (AnyStar # r) (x # xs) =
     (if isLineTerminator x then match_end r (x # xs)
      else (case match_end (AnyStar # r) xs of
              Some e \<Rightarrow> Some (Suc e)
            | None \<Rightarrow> match_end r (x # xs)))"

text \<open>The end index of the first match at or after position \<open>pos\<close>; \<open>s\<close> is the text
  from \<open>pos\<close> on.\<close>

fun search :: "re_atom list \<Rightarrow> string \<Rightarrow> nat \<Rightarrow> nat option" where
  "search r [] pos = map_option (\<lambda>e. pos + e) (match_end r [])"
| "search r (x # xs) pos =
     (case match_end r (x # xs) of
        Some e \<Rightarrow> Some (pos + e)
      | None \<Rightarrow> search r xs (Suc pos))"

text \<open>\<open>re.test(s)\<close> on the object at address \<open>a\<close>: the result and the heap after it.\<close>

definition RegExp_test :: "nat \<Rightarrow> string \<Rightarrow> heap \<Rightarrow> bool \<times> heap" where
  "RegExp_test a s h =
     (let re = h ! a;
          stateful = (global re \<or> sticky re);
          start = (if stateful then lastIndex re else 0);
          found = (if start > length s then None
                   else if sticky re
                        then map_option (\<lambda>e. start + e) (match_end (pattern re) (drop start s))
                        else search (pattern re) (drop start s) start)
      in (case found of
            None \<Rightarrow> (False, if stateful then h[a := re\<lparr>lastIndex := 0\<rparr>] else h)
          | Some e \<Rightarrow> (True, if stateful then h[a := re\<lparr>lastIndex := e\<rparr>] else h)))"

section \<open>JSON values and thrown values\<close>

text \<open>
  A value produced by \<open>JSON.parse\<close>; \<open>undefined\<close> is \<open>None\<close> of \<open>json option\<close>.
  Numbers are the integer-valued ones: the code only tests them for zero or passes them on.
  An object lists its own properties, each key once.
\<close>

datatype json =
    JNull
  | JBool bool
  | JNum int
  | JStr string
  | JArr "json list"
  | JObj "(string \<times> json) list"

text \<open>
  What a \<open>catch (e)\<close> clause can observe of a thrown value: \<open>e.name\<close>, \<open>e.message\<close>
  and \<open>String(e)\<close>. The platform and the engine throw objects, never \<open>null\<close> or
  \<open>undefined\<close>.
\<close>

datatype thrown = Thrown (thrown_name: "string option") (thrown_message: "string option")
  (thrown_string: string)

definition TypeError :: "string \<Rightarrow> thrown" where
  "TypeError msg = Thrown (Some ''TypeError'') (Some msg) (''TypeError: '' @ msg)"

definition quoted :: "string \<Rightarrow> string" where
  "quoted k = [CHR 0x27] @ k @ [CHR 0x27]"

definition nullish :: "json option \<Rightarrow> bool" where
  "nullish v = (v = None \<or> v = Some JNull)"

definition truthy :: "json option \<Rightarrow> bool" where
  "truthy v =
     (case v of
        None \<Rightarrow> False
      | Some JNull \<Rightarrow> False
      | Some (JBool b) \<Rightarrow> b
      | Some (JNum n) \<Rightarrow> n \<noteq> 0
      | Some (JStr s) \<Rightarrow> s \<noteq> []
      | Some (JArr xs) \<Rightarrow> True
      | Some (JObj kvs) \<Rightarrow> True)"

text \<open>\<open>a ?? b\<close>\<close>

definition nullish_or :: "json option \<Rightarrow> json option \<Rightarrow> json option" where
  "nullish_or a b = (if nullish a then b else a)"

text \<open>
  \<open>v.key\<close> for the property names the code reads (\<open>choices\<close>, \<open>message\<close>, \<open>content\<close>,
  \<open>reasoning\<close>, \<open>finish_reason\<close>, \<open>usage\<close> and the token counts); none of them is a
  built-in property of a string, number, boolean or array. The messages are the engine's (V8).
\<close>

definition get_member :: "json option \<Rightarrow> string \<Rightarrow> thrown + json option" where
  "get_member v key =
     (case v of
        None \<Rightarrow> Inl (TypeError (''Cannot read properties of undefined (reading ''
                                  @ quoted key @ '')''))
      | Some JNull \<Rightarrow> Inl (TypeError (''Cannot read properties of null (reading ''
                                        @ quoted key @ '')''))
      | Some (JObj kvs) \<Rightarrow> Inr (map_of kvs key)
      | Some _ \<Rightarrow> Inr None)"

text \<open>\<open>v[0]\<close>\<close>

definition get_first :: "json option \<Rightarrow> thrown + json option" where
  "get_first v =
     (case v of
        None \<Rightarrow> Inl (TypeError (''Cannot read properties of undefined (reading ''
                                  @ quoted ''0'' @ '')''))
      | Some JNull \<Rightarrow> Inl (TypeError (''Cannot read properties of null (reading ''
                                        @ quoted ''0'' @ '')''))
      | Some (JArr xs) \<Rightarrow> Inr (case xs of [] \<Rightarrow> None | x # _ \<Rightarrow> Some x)
      | Some (JStr s) \<Rightarrow> Inr (case s of [] \<Rightarrow> None | c # _ \<Rightarrow> Some (JStr [c]))
      | Some (JObj kvs) \<Rightarrow> Inr (map_of kvs ''0'')
      | Some _ \<Rightarrow> Inr None)"

definition and_then :: "thrown + 'a \<Rightarrow> ('a \<Rightarrow> thrown + 'b) \<Rightarrow> thrown + 'b" where
  "and_then r f = (case r of Inl e \<Rightarrow> Inl e | Inr x \<Rightarrow> f x)"

section \<open>Data model of the query script\<close>

record ModelConfig =
  id_m :: string
  name :: string
  provider :: string
  license :: string
  released :: "string option"

record Config =
  prompt :: string
  temperature :: real
  max_tokens :: int
  runs_per_model :: "int option"
  models :: "ModelConfig list"

text \<open>
  A \<open>RunResult\<close> at run time: \<open>content\<close> and the token fields hold whatever the remote
  JSON held there.
\<close>

record RunResult =
  success :: bool
  content :: "json option"
  tokens_prompt :: "json option"
  tokens_completion :: "json option"
  tokens_reasoning :: "json option"
  finish_reason :: "json option"
  topics :: "string list option"
  reasoning :: "json option"
  error :: "string option"

record ModelEntry = ModelConfig +
  runs :: "RunResult list"

section \<open>The completion request\<close>

record request =
  req_model :: string
  req_prompt :: string
  req_temperature :: real
  req_max_tokens :: int
  req_include_reasoning :: bool
  req_api_key :: string

text \<open>
  What \<open>fetch\<close> resolves to: the status, and what \<open>resp.text()\<close> and \<open>resp.json()\<close>
  give when awaited (either may throw). \<open>fetch\<close> itself may throw.
\<close>

record response =
  status :: nat
  text_body :: "thrown + string"
  json_body :: "thrown + json"

definition ok :: "response \<Rightarrow> bool" where
  "ok resp = (200 \<le> status resp \<and> status resp \<le> 299)"

type_synonym fetch_result = "thrown + response"

definition failed :: "string \<Rightarrow> RunResult" where
  "failed msg =
     \<lparr>success = False, content = Some JNull, tokens_prompt = None, tokens_completion = None,
      tokens_reasoning = None, finish_reason = None, topics = None, reasoning = None,
      error = Some msg\<rparr>"

text \<open>The body of the \<open>try\<close> block of \<open>queryModel\<close>, after \<open>fetch\<close> has settled.\<close>

definition queryModel_try :: "fetch_result \<Rightarrow> thrown + RunResult" where
  "queryModel_try fetched =
     and_then fetched (\<lambda>resp.
       if \<not> ok resp then
         and_then (text_body resp) (\<lambda>text.
           Inr (failed (''HTTP '' @ digits_of (status resp) @ '': '' @ slice0 text 200)))
       else
         and_then (json_body resp) (\<lambda>data.
         and_then (get_member (Some data) ''choices'') (\<lambda>choices.
         and_then (get_first choices) (\<lambda>choice.
         and_then (get_member choice ''message'') (\<lambda>message.
         and_then (get_member message ''content'') (\<lambda>content_v.
         and_then (get_member message ''reasoning'') (\<lambda>reasoning_raw.
         and_then (get_member (Some data) ''usage'') (\<lambda>usage_raw.
           let reasoning_v = nullish_or reasoning_raw None;
               usage = nullish_or usage_raw (Some (JObj []))
           in
         and_then (get_member usage ''prompt_tokens'') (\<lambda>prompt_tokens.
         and_then (get_member usage ''completion_tokens'') (\<lambda>completion_tokens.
         and_then (get_member usage ''reasoning_tokens'') (\<lambda>reasoning_tokens.
         and_then (get_member choice ''finish_reason'') (\<lambda>finish.
           Inr \<lparr>success = True,
                content = content_v,
                tokens_prompt = nullish_or prompt_tokens (Some (JNum 0)),
                tokens_completion = nullish_or completion_tokens (Some (JNum 0)),
                tokens_reasoning = nullish_or reasoning_tokens None,
                finish_reason = nullish_or finish (Some (JStr ''unknown'')),
                topics = None,
                reasoning = (if truthy reasoning_v then reasoning_v else None),
                error = None\<rparr>))))))))))))"

text \<open>The reads \<open>data.choices[0].message.content\<close> on their own.\<close>

definition content_path :: "json \<Rightarrow> thrown + json option" where
  "content_path data =
     and_then (get_member (Some data) ''choices'') (\<lambda>choices.
     and_then (get_first choices) (\<lambda>choice.
     and_then (get_member choice ''message'') (\<lambda>message.
       get_member message ''content'')))"

text \<open>The \<open>catch\<close> clause.\<close>

definition queryModel_catch :: "thrown \<Rightarrow> RunResult" where
  "queryModel_catch err =
     (if thrown_name err = Some ''TimeoutError'' then failed ''timeout''
      else failed (slice0 (case thrown_message err of
                             Some m \<Rightarrow> m
                           | None \<Rightarrow> thrown_string err) 200))"

definition queryModel_result :: "fetch_result \<Rightarrow> RunResult" where
  "queryModel_result fetched =
     (case queryModel_try fetched of
        Inl err \<Rightarrow> queryModel_catch err
      | Inr r \<Rightarrow> r)"

text \<open>
  The remote API: what \<open>fetch\<close> settles to for a request, given the requests sent before.
  \<open>queryModel\<close> sends one request and appends it to the log of requests.
\<close>

type_synonym api = "request list \<Rightarrow> request \<Rightarrow> fetch_result"

definition payload :: "string \<Rightarrow> string \<Rightarrow> real \<Rightarrow> int \<Rightarrow> string \<Rightarrow> request" where
  "payload modelId prompt_text temp maxTokens apiKey =
     \<lparr>req_model = modelId, req_prompt = prompt_text, req_temperature = temp,
      req_max_tokens = maxTokens, req_include_reasoning = True, req_api_key = apiKey\<rparr>"

definition queryModel ::
  "api \<Rightarrow> request list \<Rightarrow> string \<Rightarrow> string \<Rightarrow> real \<Rightarrow> int \<Rightarrow> string
     \<Rightarrow> RunResult \<times> request list" where
  "queryModel remote sent modelId prompt_text temp maxTokens apiKey =
     (queryModel_result (remote sent (payload modelId prompt_text temp maxTokens apiKey)),
      sent @ [payload modelId prompt_text temp maxTokens apiKey])"

section \<open>Plain objects used as dictionaries\<close>

text \<open>
  The own properties of a plain object in the order \<open>Object.entries\<close> and
  \<open>JSON.stringify\<close> enumerate them: array-index keys (the canonical decimal strings of
  \<open>0 .. 2^32 - 2\<close>) first, by ascending value, then the other keys in the order they were
  created. \<open>obj_get\<close> and \<open>obj_set\<close> read and write own properties; what a read or a
  write of a name that \<open>Object.prototype\<close> defines does is said where it happens.
\<close>

type_synonym 'v js_object = "(string \<times> 'v) list"

definition isDigit :: "char \<Rightarrow> bool" where
  "isDigit c = (48 \<le> (of_char c :: nat) \<and> (of_char c :: nat) \<le> 57)"

definition decimal_value :: "string \<Rightarrow> int" where
  "decimal_value s = foldl (\<lambda>a c. 10 * a + ((of_char c :: int) - 48)) 0 s"

definition isArrayIndex :: "string \<Rightarrow> bool" where
  "isArrayIndex s =
     (s \<noteq> [] \<and> list_all isDigit s \<and> (s = ''0'' \<or> hd s \<noteq> CHR ''0'')
      \<and> decimal_value s \<le> 4294967294)"

fun insert_index :: "string \<Rightarrow> 'v \<Rightarrow> 'v js_object \<Rightarrow> 'v js_object" where
  "insert_index k v [] = [(k, v)]"
| "insert_index k v ((k', v') # ps) =
     (if isArrayIndex k' \<and> decimal_value k' < decimal_value k
      then (k', v') # insert_index k v ps
      else (k, v) # (k', v') # ps)"

fun replace_value :: "string \<Rightarrow> 'v \<Rightarrow> 'v js_object \<Rightarrow> 'v js_object" where
  "replace_value k v [] = []"
| "replace_value k v ((k', v') # ps) =
     (if k' = k then (k, v) # ps else (k', v') # replace_value k v ps)"

text \<open>\<open>obj[k] = v\<close>\<close>

definition obj_set :: "'v js_object \<Rightarrow> string \<Rightarrow> 'v \<Rightarrow> 'v js_object" where
  "obj_set obj k v =
     (if k \<in> fst ` set obj then replace_value k v obj
      else if isArrayIndex k then insert_index k v obj
      else obj @ [(k, v)])"

text \<open>\<open>obj[k]\<close>\<close>

definition obj_get :: "'v js_object \<Rightarrow> string \<Rightarrow> 'v option" where
  "obj_get obj k = map_of obj k"

definition Object_entries :: "'v js_object \<Rightarrow> (string \<times> 'v) list" where
  "Object_entries obj = obj"

definition Object_fromEntries :: "(string \<times> 'v) list \<Rightarrow> 'v js_object" where
  "Object_fromEntries es = fold (\<lambda>(k, v) obj. obj_set obj k v) es []"

text \<open>
  The property names that every plain object inherits from \<open>Object.prototype\<close>: the
  functions and, as \<open>__proto__\<close>, the accessor of the prototype.
\<close>

definition prototype_names :: "string list" where
  "prototype_names =
     [''constructor'', ''hasOwnProperty'', ''isPrototypeOf'', ''propertyIsEnumerable'',
      ''toLocaleString'', ''toString'', ''valueOf'', ''__proto__'', ''__defineGetter__'',
      ''__defineSetter__'', ''__lookupGetter__'', ''__lookupSetter__'']"

section \<open>Topic classifier on the heap\<close>

text \<open>
  \<open>detectTopics\<close> with what it allocates and enumerates: the registry is an object
  built by its literal, property by property, and read back by \<open>Object.entries\<close>; every
  keyword gets a new \<open>RegExp\<close> object, on which \<open>test\<close> is called once.
\<close>

fun any_keyword_in :: "string list \<Rightarrow> string \<Rightarrow> heap \<Rightarrow> bool \<times> heap" where
  "any_keyword_in [] lower h = (False, h)"
| "any_keyword_in (kw # kws) lower h =
     (case new_RegExp kw h of (a, h1) \<Rightarrow>
      (case RegExp_test a lower h1 of (matched, h2) \<Rightarrow>
         if matched then (True, h2) else any_keyword_in kws lower h2))"

fun topics_loop_in ::
  "(string \<times> string list) list \<Rightarrow> string \<Rightarrow> string list \<Rightarrow> heap \<Rightarrow> string list \<times> heap" where
  "topics_loop_in [] lower found h = (found, h)"
| "topics_loop_in ((topic, keywords) # rest) lower found h =
     (case any_keyword_in keywords lower h of (matched, h1) \<Rightarrow>
        topics_loop_in rest lower (if matched then found @ [topic] else found) h1)"

text \<open>An object literal defines its properties in the order they are written.\<close>

definition object_literal :: "(string \<times> 'v) list \<Rightarrow> 'v js_object" where
  "object_literal props = fold (\<lambda>(k, v) obj. obj_set obj k v) props []"

definition detectTopics_in :: "string \<Rightarrow> heap \<Rightarrow> string list \<times> heap" where
  "detectTopics_in text h =
     topics_loop_in (Object_entries (object_literal topicKeywords)) (toLowerCase text) [] h"

section \<open>Statistics\<close>

text \<open>
  \<open>computeStats\<close>: the loops over models, runs and topics carry \<open>totalResponses\<close> and
  \<open>topicCounts\<close>. The two token sums of the same loop (\<open>total_tokens\<close>,
  \<open>total_reasoning_tokens\<close>) are numeric accumulators independent of the rest and are
  left out.
\<close>

record Stats =
  total_models :: nat
  total_responses :: nat
  topic_frequency :: "nat js_object option"

text \<open>
  A value stored in \<open>topicCounts\<close>: a number, or a string. Strings arise from inherited
  names: \<open>topicCounts[topic] ?? 0\<close> reads the inherited function where the object has no
  own property of that name, a function plus 1 is a string, and a string plus 1 is a
  string again.
\<close>

datatype count = Count nat | NotANumber

text \<open>
  \<open>topicCounts[topic] = (topicCounts[topic] ?? 0) + 1\<close>. The assignment creates or
  updates an own property, except for \<open>__proto__\<close>: there the inherited setter is called,
  which ignores a string, and the object stays as it is.
\<close>

definition count_topic :: "string \<Rightarrow> count js_object \<Rightarrow> count js_object" where
  "count_topic topic topicCounts =
     (case obj_get topicCounts topic of
        Some (Count n) \<Rightarrow> obj_set topicCounts topic (Count (n + 1))
      | Some NotANumber \<Rightarrow> obj_set topicCounts topic NotANumber
      | None \<Rightarrow>
          if topic = ''__proto__'' then topicCounts
          else if topic \<in> set prototype_names then obj_set topicCounts topic NotANumber
          else obj_set topicCounts topic (Count 1))"

definition count_run :: "RunResult \<Rightarrow> nat \<times> count js_object \<Rightarrow> nat \<times> count js_object" where
  "count_run run acc =
     (case acc of (totalResponses, topicCounts) \<Rightarrow>
        if success run
        then (totalResponses + 1,
              fold count_topic (case topics run of None \<Rightarrow> [] | Some ts \<Rightarrow> ts) topicCounts)
        else (totalResponses, topicCounts))"

definition count_model :: "ModelEntry \<Rightarrow> nat \<times> count js_object \<Rightarrow> nat \<times> count js_object"
  where
  "count_model model acc = fold count_run (runs model) acc"

text \<open>\<open>.sort((a, b) => b[1] - a[1])\<close> on numbers: a stable sort, larger counts first.\<close>

definition sort_desc :: "(string \<times> nat) list \<Rightarrow> (string \<times> nat) list" where
  "sort_desc es = sort_key (\<lambda>e. - int (snd e)) es"

text \<open>
  The entries when every count is a number. With a string among the counts the
  comparator of the sort yields \<open>NaN\<close> and the order of the result is left to the engine:
  the model gives no entries then.
\<close>

definition numeric_entries :: "(string \<times> count) list \<Rightarrow> (string \<times> nat) list option" where
  "numeric_entries es =
     (if list_all (\<lambda>e. snd e \<noteq> NotANumber) es
      then Some (map (\<lambda>e. (fst e, case snd e of Count n \<Rightarrow> n | NotANumber \<Rightarrow> 0)) es)
      else None)"

definition computeStats :: "ModelEntry list \<Rightarrow> Stats" where
  "computeStats ms =
     (case fold count_model ms (0, []) of (totalResponses, topicCounts) \<Rightarrow>
        \<lparr>total_models = length ms,
         total_responses = totalResponses,
         topic_frequency =
           map_option (\<lambda>es. Object_fromEntries (take 20 (sort_desc es)))
             (numeric_entries (Object_entries topicCounts))\<rparr>)"

section \<open>The query script\<close>

text \<open>
  The pauses between requests and the progress output do not influence any result and are
  left out; writing the data file at the end is taken to succeed.
\<close>

text \<open>The argument loop: filter string, dry run, append.\<close>

fun parse_args :: "string list \<Rightarrow> string option \<times> bool \<times> bool \<Rightarrow> string option \<times> bool \<times> bool"
  where
  "parse_args [] st = st"
| "parse_args [a] (filterStr, dryRun, append_mode) =
     (if a = ''--dry-run'' then (filterStr, True, append_mode)
      else if a = ''--append'' then (filterStr, dryRun, True)
      else (filterStr, dryRun, append_mode))"
| "parse_args (a # b # rest) (filterStr, dryRun, append_mode) =
     (if a = ''--filter'' \<and> b \<noteq> [] then parse_args rest (Some b, dryRun, append_mode)
      else if a = ''--dry-run'' then parse_args (b # rest) (filterStr, True, append_mode)
      else if a = ''--append'' then parse_args (b # rest) (filterStr, dryRun, True)
      else parse_args (b # rest) (filterStr, dryRun, append_mode))"

definition apply_filter :: "string \<Rightarrow> ModelConfig list \<Rightarrow> ModelConfig list" where
  "apply_filter filterStr ms =
     (let filters = map (\<lambda>f. toLowerCase (trim f)) (split_at CHR '','' filterStr)
      in filter (\<lambda>m. list_ex (\<lambda>f. String_includes (toLowerCase (id_m m)) f
                                    \<or> String_includes (toLowerCase (name m)) f) filters) ms)"

definition retryTokens :: "int list" where
  "retryTokens = [2500, 5000, 10000]"

text \<open>\<open>!result.content || !result.content.trim()\<close>\<close>

definition content_blank :: "json option \<Rightarrow> thrown + bool" where
  "content_blank c =
     (if \<not> truthy c then Inr True
      else (case c of
              Some (JStr s) \<Rightarrow> Inr (trim s = [])
            | _ \<Rightarrow> Inl (TypeError ''result.content.trim is not a function'')))"

text \<open>The \<open>while\<close> loop that retries with the boosted budgets.\<close>

function retry_loop ::
  "api \<Rightarrow> string \<Rightarrow> string \<Rightarrow> real \<Rightarrow> string \<Rightarrow> nat \<Rightarrow> RunResult \<Rightarrow> request list
     \<Rightarrow> (thrown + RunResult) \<times> request list" where
  "retry_loop remote modelId prompt_text temp apiKey retries result sent =
     (if \<not> success result then (Inr result, sent)
      else (case content_blank (content result) of
              Inl e \<Rightarrow> (Inl e, sent)
            | Inr blank \<Rightarrow>
                if blank \<and> retries < length retryTokens then
                  retry_loop remote modelId prompt_text temp apiKey (Suc retries)
                    (fst (queryModel remote sent modelId prompt_text temp
                            (retryTokens ! retries) apiKey))
                    (snd (queryModel remote sent modelId prompt_text temp
                            (retryTokens ! retries) apiKey))
                else (Inr result, sent)))"
  by pat_completeness auto
termination
  by (relation "measure (\<lambda>(remote, modelId, prompt_text, temp, apiKey, retries, result, sent).
                  length retryTokens - retries)") auto

declare retry_loop.simps [simp del]

text \<open>\<open>detectTopics(result.content!)\<close> on whatever the content is at run time.\<close>

definition detectTopics_value :: "json option \<Rightarrow> thrown + string list" where
  "detectTopics_value v =
     (case v of
        Some (JStr s) \<Rightarrow> Inr (detectTopics s)
      | None \<Rightarrow> Inl (TypeError (''Cannot read properties of undefined (reading ''
                                  @ quoted ''toLowerCase'' @ '')''))
      | Some JNull \<Rightarrow> Inl (TypeError (''Cannot read properties of null (reading ''
                                        @ quoted ''toLowerCase'' @ '')''))
      | Some _ \<Rightarrow> Inl (TypeError ''text.toLowerCase is not a function''))"

text \<open>After the loop: a successful result gets its topics.\<close>

definition attach_topics :: "RunResult \<Rightarrow> thrown + RunResult" where
  "attach_topics result =
     (if success result
      then and_then (detectTopics_value (content result))
             (\<lambda>ts. Inr (result\<lparr>topics := Some ts\<rparr>))
      else Inr result)"

text \<open>One iteration of the loop over \<open>runIdx\<close>: the result pushed onto \<open>runs\<close>.\<close>

definition run_once ::
  "api \<Rightarrow> string \<Rightarrow> string \<Rightarrow> real \<Rightarrow> int \<Rightarrow> string \<Rightarrow> request list
     \<Rightarrow> (thrown + RunResult) \<times> request list" where
  "run_once remote modelId prompt_text temp maxTokens apiKey sent =
     (case queryModel remote sent modelId prompt_text temp maxTokens apiKey of
        (first, sent1) \<Rightarrow>
     (case retry_loop remote modelId prompt_text temp apiKey 0 first sent1 of
        (looped, sent2) \<Rightarrow> (and_then looped attach_topics, sent2)))"

fun runs_loop ::
  "api \<Rightarrow> string \<Rightarrow> string \<Rightarrow> real \<Rightarrow> int \<Rightarrow> string \<Rightarrow> nat \<Rightarrow> RunResult list \<Rightarrow> request list
     \<Rightarrow> (thrown + RunResult list) \<times> request list" where
  "runs_loop remote modelId prompt_text temp maxTokens apiKey 0 rs sent = (Inr rs, sent)"
| "runs_loop remote modelId prompt_text temp maxTokens apiKey (Suc n) rs sent =
     (case run_once remote modelId prompt_text temp maxTokens apiKey sent of
        (Inl e, sent') \<Rightarrow> (Inl e, sent')
      | (Inr r, sent') \<Rightarrow>
          runs_loop remote modelId prompt_text temp maxTokens apiKey n (rs @ [r]) sent')"

definition new_entry :: "ModelConfig \<Rightarrow> RunResult list \<Rightarrow> ModelEntry" where
  "new_entry model rs =
     \<lparr>id_m = id_m model, name = name model, provider = provider model,
      license = license model,
      released = (case released model of
                    Some d \<Rightarrow> if d \<noteq> [] then Some d else None
                  | None \<Rightarrow> None),
      runs = rs\<rparr>"

text \<open>The loop over the models of the catalog.\<close>

fun models_loop ::
  "api \<Rightarrow> string \<Rightarrow> real \<Rightarrow> int \<Rightarrow> string \<Rightarrow> nat \<Rightarrow> string set \<Rightarrow> ModelConfig list
     \<Rightarrow> ModelEntry list \<Rightarrow> request list \<Rightarrow> (thrown + ModelEntry list) \<times> request list" where
  "models_loop remote prompt_text temp maxTokens apiKey runsPerModel existingIds [] results sent =
     (Inr results, sent)"
| "models_loop remote prompt_text temp maxTokens apiKey runsPerModel existingIds (model # rest)
     results sent =
     (if id_m model \<in> existingIds
      then models_loop remote prompt_text temp maxTokens apiKey runsPerModel existingIds rest
             results sent
      else (case runs_loop remote (id_m model) prompt_text temp maxTokens apiKey runsPerModel
                   [] sent of
              (Inl e, sent') \<Rightarrow> (Inl e, sent')
            | (Inr rs, sent') \<Rightarrow>
                models_loop remote prompt_text temp maxTokens apiKey runsPerModel existingIds
                  rest (results @ [new_entry model rs]) sent'))"

record Meta =
  meta_prompt :: string
  meta_temperature :: real
  meta_max_tokens :: int
  meta_runs_per_model :: int
  generated_at :: string
  meta_total_models :: nat

record Dataset =
  meta :: Meta
  stats :: Stats
  models_out :: "ModelEntry list"

text \<open>
  How the script ends: \<open>process.exit(1)\<close> for a missing key, a rejection of \<open>main\<close> (also
  exit code 1), the listing of a dry run, or the dataset written to the data file.
\<close>

datatype outcome =
    MissingKey
  | Rejected thrown
  | DryRun "(ModelConfig \<times> bool) list"
  | Written (written: Dataset)

text \<open>
  \<open>main\<close> of the query script. Its inputs: the command line, the API key of the
  environment, what \<open>loadConfig\<close> gives, what reading and parsing the data file gives
  (the \<open>models\<close> of the parsed file, if it has any), the remote API and the clock.
  Its result: how it ended and the requests it sent.
\<close>

definition main ::
  "string list \<Rightarrow> string option \<Rightarrow> thrown + Config \<Rightarrow> thrown + ModelEntry list option
     \<Rightarrow> api \<Rightarrow> string \<Rightarrow> outcome \<times> request list" where
  "main args env_key loaded data_file remote now =
     (case parse_args args (None, False, False) of (filterStr, dryRun, append_mode) \<Rightarrow>
      if (env_key = None \<or> env_key = Some []) \<and> \<not> dryRun then (MissingKey, [])
      else (case loaded of
              Inl e \<Rightarrow> (Rejected e, [])
            | Inr config \<Rightarrow>
        let runsPerModel = (case runs_per_model config of None \<Rightarrow> 3 | Some n \<Rightarrow> n);
            ms = (case filterStr of
                    Some f \<Rightarrow> apply_filter f (models config)
                  | None \<Rightarrow> models config);
            existingData = (if append_mode
                            then (case data_file of
                                    Inr (Some old) \<Rightarrow> old
                                  | _ \<Rightarrow> [])
                            else []);
            existingIds = set (map id_m existingData)
        in if dryRun then (DryRun (map (\<lambda>m. (m, id_m m \<in> existingIds)) ms), [])
           else (case models_loop remote (prompt config) (temperature config)
                        (max_tokens config) (case env_key of Some k \<Rightarrow> k | None \<Rightarrow> []) (nat runsPerModel)
                        existingIds ms existingData [] of
                   (Inl e, sent) \<Rightarrow> (Rejected e, sent)
                 | (Inr results, sent) \<Rightarrow>
                     (let st = computeStats results
                      in (Written
                            \<lparr>meta = \<lparr>meta_prompt = prompt config,
                                      meta_temperature = temperature config,
                                      meta_max_tokens = max_tokens config,
                                      meta_runs_per_model = runsPerModel,
                                      generated_at = now,
                                      meta_total_models = total_models st\<rparr>,
                             stats = st,
                             models_out = results\<rparr>,
                          sent)))))"

section \<open>The discovery script\<close>

text \<open>Prefix, license and provider of each row of \<open>LICENSE_MAP\<close>.\<close>

definition LICENSE_MAP :: "(string \<times> string \<times> string) list" where
  "LICENSE_MAP =
   [(''google/gemma'', ''open-weights'', ''Google''),
    (''microsoft/phi'', ''open-source'', ''Microsoft''),
    (''anthropic/'', ''commercial'', ''Anthropic''),
    (''openai/'', ''commercial'', ''OpenAI''),
    (''x-ai/'', ''commercial'', ''xAI''),
    (''google/'', ''commercial'', ''Google''),
    (''meta-llama/'', ''open-weights'', ''Meta''),
    (''mistralai/'', ''open-weights'', ''Mistral''),
    (''deepseek/'', ''open-source'', ''DeepSeek''),
    (''qwen/'', ''open-source'', ''Alibaba''),
    (''nvidia/'', ''open-source'', ''NVIDIA''),
    (''cohere/'', ''open-source'', ''Cohere'')]"

text \<open>\<open>[...new Set(xs)]\<close>: the first occurrence of each element, in order.\<close>

definition unique :: "'a list \<Rightarrow> 'a list" where
  "unique xs = fold (\<lambda>x acc. if x \<in> set acc then acc else acc @ [x]) xs []"

definition ALLOWED_PREFIXES :: "string list" where
  "ALLOWED_PREFIXES =
     unique (map (\<lambda>(p, l, pr). (case split_at CHR ''/'' p of
                                   first # _ \<Rightarrow> first
                                 | [] \<Rightarrow> []) @ ''/'') LICENSE_MAP)"

record ModelYaml =
  yaml_id :: string
  yaml_name :: string
  yaml_provider :: string
  yaml_license :: string

fun license_lookup :: "(string \<times> string \<times> string) list \<Rightarrow> string \<Rightarrow> (string \<times> string) option"
  where
  "license_lookup [] modelId = None"
| "license_lookup ((p, l, pr) # rest) modelId =
     (if startsWith modelId p then Some (l, pr) else license_lookup rest modelId)"

definition getLicenseInfo :: "string \<Rightarrow> (string \<times> string) option" where
  "getLicenseInfo modelId = license_lookup LICENSE_MAP modelId"

definition isAllowedModel :: "string \<Rightarrow> bool" where
  "isAllowedModel modelId = list_ex (\<lambda>p. startsWith modelId p) ALLOWED_PREFIXES"

definition isWordChar :: "char \<Rightarrow> bool" where
  "isWordChar c =
     (let n = (of_char c :: nat)
      in (48 \<le> n \<and> n \<le> 57) \<or> (65 \<le> n \<and> n \<le> 90) \<or> (97 \<le> n \<and> n \<le> 122) \<or> n = 95)"

text \<open>\<open>.replace(/\b\w/g, (c) => c.toUpperCase())\<close>; the flag tells whether the character
  before was a word character.\<close>

fun capitalize :: "bool \<Rightarrow> string \<Rightarrow> string" where
  "capitalize prev [] = []"
| "capitalize prev (c # cs) =
     (if isWordChar c \<and> \<not> prev then toUpperCase_char c else c) # capitalize (isWordChar c) cs"

definition deriveModelName :: "string \<Rightarrow> string \<Rightarrow> string" where
  "deriveModelName modelId apiName =
     (if trim apiName \<noteq> [] then trim apiName
      else (let idPart = (case split_at CHR ''/'' modelId of
                            _ # second # _ \<Rightarrow> second
                          | _ \<Rightarrow> modelId)
            in capitalize False
                 (map (\<lambda>c. if c = CHR ''-'' \<or> c = CHR ''_'' then CHR '' '' else c) idPart)))"

text \<open>The candidate list: ranked identifiers first, then the full list, each once.\<close>

fun ranked_loop ::
  "(string \<Rightarrow> string option) \<Rightarrow> string list \<Rightarrow> (string \<times> string) list \<times> string set
     \<Rightarrow> (string \<times> string) list \<times> string set" where
  "ranked_loop modelMap [] acc = acc"
| "ranked_loop modelMap (i # rest) (candidates, seenIds) =
     ranked_loop modelMap rest
       (if i \<notin> seenIds \<and> isAllowedModel i
        then (candidates @ [(i, case modelMap i of Some n \<Rightarrow> n | None \<Rightarrow> [])],
              insert i seenIds)
        else (candidates, seenIds))"

fun all_loop ::
  "(string \<times> string) list \<Rightarrow> (string \<times> string) list \<times> string set
     \<Rightarrow> (string \<times> string) list \<times> string set" where
  "all_loop [] acc = acc"
| "all_loop (m # rest) (candidates, seenIds) =
     all_loop rest
       (if fst m \<notin> seenIds \<and> isAllowedModel (fst m)
        then (candidates @ [m], insert (fst m) seenIds)
        else (candidates, seenIds))"

definition build_candidates :: "string list \<Rightarrow> (string \<times> string) list \<Rightarrow> (string \<times> string) list"
  where
  "build_candidates rankedIds allModels =
     fst (all_loop allModels
            (ranked_loop (map_of (rev allModels)) rankedIds ([], {})))"

text \<open>The loop that collects \<open>newModels\<close>.\<close>

fun new_models_loop :: "string set \<Rightarrow> (string \<times> string) list \<Rightarrow> ModelYaml list \<Rightarrow> ModelYaml list"
  where
  "new_models_loop existingIds [] newModels = newModels"
| "new_models_loop existingIds (candidate # rest) newModels =
     (if fst candidate \<in> existingIds then new_models_loop existingIds rest newModels
      else if CHR '':'' \<in> set (fst candidate) then new_models_loop existingIds rest newModels
      else (case getLicenseInfo (fst candidate) of
              None \<Rightarrow> new_models_loop existingIds rest newModels
            | Some (l, pr) \<Rightarrow>
                new_models_loop existingIds rest
                  (newModels @
                     [\<lparr>yaml_id = fst candidate,
                       yaml_name = deriveModelName (fst candidate) (snd candidate),
                       yaml_provider = pr,
                       yaml_license = l\<rparr>])))"

definition discover :: "string list \<Rightarrow> (string \<times> string) list \<Rightarrow> string list \<Rightarrow> ModelYaml list"
  where
  "discover rankedIds allModels catalogIds =
     new_models_loop (set catalogIds) (build_candidates rankedIds allModels) []"

text \<open>
  How the discovery script ends: exit for a missing key, a rejection, nothing to add, or
  the models handed to \<open>appendModelsToYaml\<close>.
\<close>

datatype update_outcome =
    NoKey
  | Failed thrown
  | UpToDate
  | Appended "ModelYaml list"

text \<open>
  \<open>main\<close> of the discovery script. Its inputs: the API key, what \<open>getAllModels\<close> gives,
  what \<open>getRankedModelIds\<close> gives (it never throws), and the identifiers of the models
  of the catalog file (reading it may throw).
\<close>

definition update_main ::
  "string option \<Rightarrow> thrown + (string \<times> string) list \<Rightarrow> string list \<Rightarrow> thrown + string list
     \<Rightarrow> update_outcome" where
  "update_main env_key fetched_models rankedIds catalog =
     (if env_key = None \<or> env_key = Some [] then NoKey
      else (case fetched_models of
              Inl e \<Rightarrow> Failed e
            | Inr allModels \<Rightarrow>
                (case catalog of
                   Inl e \<Rightarrow> Failed e
                 | Inr catalogIds \<Rightarrow>
                     (let newModels = discover rankedIds allModels catalogIds
                      in if newModels = [] then UpToDate else Appended newModels))))"

section \<open>The three ways a completion request ends\<close>

text \<open>
  Which branch of \<open>queryModel\<close> a settled \<open>fetch\<close> takes: a throw that the \<open>catch\<close>
  clause handles, the early return for a non-2xx status, or the return of the success
  record.
\<close>

datatype verdict = Caught thrown | HttpError response string | Success

definition verdict_of :: "fetch_result \<Rightarrow> verdict" where
  "verdict_of fetched =
     (case fetched of
        Inl err \<Rightarrow> Caught err
      | Inr resp \<Rightarrow>
          if \<not> ok resp then
            (case text_body resp of Inl err \<Rightarrow> Caught err | Inr text \<Rightarrow> HttpError resp text)
          else
            (case json_body resp of
               Inl err \<Rightarrow> Caught err
             | Inr data \<Rightarrow>
                 (case content_path data of Inl err \<Rightarrow> Caught err | Inr c \<Rightarrow> Success)))"

section \<open>Words in any letter case\<close>

text \<open>
  \<open>w\<close> spells the lower-case word \<open>lower_word\<close> in some letter case: letter by letter,
  \<open>w\<close> has the letter itself or its capital.
\<close>

definition spelled_in_any_case :: "string \<Rightarrow> string \<Rightarrow> bool" where
  "spelled_in_any_case w lower_word =
     list_all2 (\<lambda>c l. c = l \<or> c = toUpperCase_char l) w lower_word"

section \<open>The models a run of the query script considers\<close>

text \<open>The catalog after the \<open>--filter\<close> argument, if any, has been applied.\<close>

definition selected :: "string option \<Rightarrow> Config \<Rightarrow> ModelConfig list" where
  "selected filterStr config =
     (case filterStr of Some f \<Rightarrow> apply_filter f (models config) | None \<Rightarrow> models config)"

section \<open>Topic occurrences\<close>

text \<open>
  The topics of the successful runs of all models, in the order the runs store them:
  every occurrence counts.
\<close>

definition successful_topics :: "ModelEntry list \<Rightarrow> string list" where
  "successful_topics ms =
     concat (map (\<lambda>r. case topics r of None \<Rightarrow> [] | Some ts \<Rightarrow> ts)
               (filter success (concat (map runs ms))))"

text \<open>The position at which \<open>x\<close> is first encountered in \<open>xs\<close>.\<close>

definition first_index :: "'a list \<Rightarrow> 'a \<Rightarrow> nat" where
  "first_index xs x = length (takeWhile (\<lambda>y. y \<noteq> x) xs)"

text \<open>
  The labels that are ordinary keys of a dictionary object: neither an array index nor
  a name inherited from \<open>Object.prototype\<close>.
\<close>

definition ordinary_label :: "string \<Rightarrow> bool" where
  "ordinary_label t = (\<not> isArrayIndex t \<and> t \<notin> set prototype_names)"

section \<open>Empty replies\<close>

text \<open>A successful result whose content is a string that is empty after trimming.\<close>

definition blank_success :: "RunResult \<Rightarrow> bool" where
  "blank_success r = (success r \<and> (\<exists>s. content r = Some (JStr s) \<and> trim s = []))"

section \<open>Concrete inputs\<close>

text \<open>A remote catalog with a tier variant of a model and the model itself.\<close>

definition variant_catalog :: "(string \<times> string) list" where
  "variant_catalog = [(''openai/gpt-4:free'', ''GPT-4 (free)''), (''openai/gpt-4'', ''GPT-4'')]"

text \<open>A server error with a body of 300 characters, and an API that always answers so.\<close>

definition server_error :: response where
  "server_error =
     \<lparr>status = 500, text_body = Inr (replicate 300 CHR ''x''),
      json_body = Inl (Thrown (Some ''SyntaxError'') (Some ''Unexpected token'')
                         ''SyntaxError: Unexpected token'')\<rparr>"

definition always_500 :: api where
  "always_500 sent rq = Inr server_error"

text \<open>A 2xx reply whose JSON is \<open>{"choices": [{"message": {}}]}\<close>.\<close>

definition reply_without_content :: response where
  "reply_without_content =
     \<lparr>status = 200, text_body = Inr [],
      json_body = Inr (JObj [(''choices'', JArr [JObj [(''message'', JObj [])]])])\<rparr>"

text \<open>A thrown \<open>Error\<close> whose message is the empty string.\<close>

definition blank_error :: thrown where
  "blank_error = Thrown (Some ''Error'') (Some []) ''Error''"

text \<open>What \<open>AbortSignal.timeout\<close> makes \<open>fetch\<close> throw.\<close>

definition timeout_error :: thrown where
  "timeout_error =
     Thrown (Some ''TimeoutError'') (Some ''The operation was aborted due to timeout'')
       ''TimeoutError: The operation was aborted due to timeout''"

text \<open>A 2xx reply whose JSON is \<open>{"choices": [{"message": {"content": c}}]}\<close>.\<close>

definition reply_with :: "json \<Rightarrow> response" where
  "reply_with c =
     \<lparr>status = 200, text_body = Inr [],
      json_body = Inr (JObj [(''choices'', JArr [JObj [(''message'', JObj [(''content'', c)])]])])\<rparr>"

text \<open>An API whose every reply has a single space as content.\<close>

definition always_blank :: api where
  "always_blank sent rq = Inr (reply_with (JStr '' ''))"

text \<open>An API that answers the first two requests with empty content and then with a text.\<close>

definition blank_twice :: api where
  "blank_twice sent rq =
     (if length sent < 2 then Inr (reply_with (JStr []))
      else Inr (reply_with (JStr ''Jellyfish can age backwards'')))"

text \<open>An API that always answers with the same text.\<close>

definition jellyfish_api :: api where
  "jellyfish_api sent rq = Inr (reply_with (JStr ''Jellyfish can age backwards''))"

text \<open>
  A catalog of three models and a persisted dataset with two entries: one for the first
  model of the catalog, one for a model that the catalog no longer lists.
\<close>

definition sample_config :: Config where
  "sample_config =
     \<lparr>prompt = ''Tell me something'', temperature = 1, max_tokens = 1000,
      runs_per_model = Some 1,
      models =
        [\<lparr>id_m = ''openai/gpt-4'', name = ''GPT-4'', provider = ''OpenAI'',
          license = ''commercial'', released = None\<rparr>,
         \<lparr>id_m = ''mistralai/mistral-large'', name = ''Mistral Large'', provider = ''Mistral'',
          license = ''open-weights'', released = Some ''2024-02''\<rparr>,
         \<lparr>id_m = ''qwen/qwen3'', name = ''Qwen3'', provider = ''Alibaba'',
          license = ''open-source'', released = None\<rparr>]\<rparr>"

definition kept_run :: RunResult where
  "kept_run =
     \<lparr>success = True, content = Some (JStr ''Octopuses have three hearts''),
      tokens_prompt = Some (JNum 12), tokens_completion = Some (JNum 7),
      tokens_reasoning = None, finish_reason = Some (JStr ''stop''),
      topics = Some [''octopus''], reasoning = None, error = None\<rparr>"

definition persisted :: "ModelEntry list" where
  "persisted =
     [\<lparr>id_m = ''openai/gpt-4'', name = ''GPT-4'', provider = ''OpenAI'',
       license = ''commercial'', released = None, runs = [kept_run]\<rparr>,
      \<lparr>id_m = ''retired/model'', name = ''Retired'', provider = ''Nobody'',
       license = ''commercial'', released = None, runs = [failed ''timeout'']\<rparr>]"

text \<open>The script run with \<open>--append\<close>, and with \<open>--append --filter QWEN\<close>.\<close>

definition append_run :: "outcome \<times> request list" where
  "append_run =
     main [''--append''] (Some ''key'') (Inr sample_config) (Inr (Some persisted)) jellyfish_api
       ''2026-01-01T00:00:00.000Z''"

definition filtered_run :: "outcome \<times> request list" where
  "filtered_run =
     main [''--append'', ''--filter'', ''QWEN''] (Some ''key'') (Inr sample_config)
       (Inr (Some persisted)) jellyfish_api ''2026-01-01T00:00:00.000Z''"

text \<open>A model whose runs carry the topic labels \<open>1\<close> (once) and \<open>2\<close> (twice).\<close>

definition numbered_run :: "string list \<Rightarrow> RunResult" where
  "numbered_run ts =
     \<lparr>success = True, content = Some (JStr ''text''), tokens_prompt = Some (JNum 0),
      tokens_completion = Some (JNum 0), tokens_reasoning = None,
      finish_reason = Some (JStr ''stop''), topics = Some ts, reasoning = None,
      error = None\<rparr>"

definition numbered_topics :: "ModelEntry list" where
  "numbered_topics =
     [\<lparr>id_m = ''openai/gpt-4'', name = ''GPT-4'', provider = ''OpenAI'',
       license = ''commercial'', released = None,
       runs = [numbered_run [''1''], numbered_run [''2'', ''2'']]\<rparr>]"

text \<open>
  A model with two successful runs, whose topics tie at two occurrences, and a failed run
  that carries topics all the same.
\<close>

definition tied_topics :: "ModelEntry list" where
  "tied_topics =
     [\<lparr>id_m = ''openai/gpt-4'', name = ''GPT-4'', provider = ''OpenAI'',
       license = ''commercial'', released = None,
       runs = [numbered_run [''sloths'', ''jellyfish''],
               (failed ''timeout'')\<lparr>topics := Some [''octopus'', ''octopus'', ''octopus'']\<rparr>,
               numbered_run [''jellyfish'', ''octopus'', ''sloths'']]\<rparr>]"

text \<open>A server error whose body cannot be read: the read is cut off by the timeout.\<close>

definition broken_body :: response where
  "broken_body = \<lparr>status = 500, text_body = Inl timeout_error, json_body = Inl timeout_error\<rparr>"

definition always_broken :: api where
  "always_broken sent rq = Inr broken_body"

text \<open>Models whose only topic label is \<open>constructor\<close>, or \<open>__proto__\<close>.\<close>

definition constructor_topic :: "ModelEntry list" where
  "constructor_topic =
     [\<lparr>id_m = ''openai/gpt-4'', name = ''GPT-4'', provider = ''OpenAI'',
       license = ''commercial'', released = None,
       runs = [numbered_run [''constructor'']]\<rparr>]"

definition proto_topic :: "ModelEntry list" where
  "proto_topic =
     [\<lparr>id_m = ''openai/gpt-4'', name = ''GPT-4'', provider = ''OpenAI'',
       license = ''commercial'', released = None,
       runs = [numbered_run [''__proto__'', ''sloths'']]\<rparr>]"

text \<open>A heap left behind by other code: a global \<open>RegExp\<close> in the middle of a scan.\<close>

definition used_heap :: heap where
  "used_heap =
     [\<lparr>pattern = RegExp ''sloth'', global = True, sticky = False, lastIndex = 5\<rparr>]"

section \<open>Discovery: tier variants are never added\<close>

lemma new_models_loop_ids:
  "m \<in> set (new_models_loop existingIds cands acc)
     \<Longrightarrow> m \<in> set acc \<or> CHR '':'' \<notin> set (yaml_id m)"
proof (induction cands arbitrary: acc)
  case Nil
  then show ?case by simp
next
  case (Cons c cs)
  show ?case
  proof (cases "fst c \<in> existingIds \<or> CHR '':'' \<in> set (fst c) \<or> getLicenseInfo (fst c) = None")
    case True
    then have "new_models_loop existingIds (c # cs) acc = new_models_loop existingIds cs acc"
      by auto
    with Cons.prems have "m \<in> set (new_models_loop existingIds cs acc)"
      by metis
    then show ?thesis by (rule Cons.IH)
  next
    case False
    then obtain l pr where lp: "getLicenseInfo (fst c) = Some (l, pr)" by auto
    let ?e = "\<lparr>yaml_id = fst c, yaml_name = deriveModelName (fst c) (snd c),
               yaml_provider = pr, yaml_license = l\<rparr>"
    have "new_models_loop existingIds (c # cs) acc = new_models_loop existingIds cs (acc @ [?e])"
      using False lp by simp
    with Cons.prems have "m \<in> set (new_models_loop existingIds cs (acc @ [?e]))"
      by metis
    then have "m \<in> set (acc @ [?e]) \<or> CHR '':'' \<notin> set (yaml_id m)"
      by (rule Cons.IH)
    then show ?thesis using False by auto
  qed
qed

lemma variant_run:
  "update_main (Some ''key'') (Inr variant_catalog) [''openai/gpt-4:free''] (Inr []) =
     Appended [\<lparr>yaml_id = ''openai/gpt-4'', yaml_name = ''GPT-4'',
                 yaml_provider = ''OpenAI'', yaml_license = ''commercial''\<rparr>]"
  by code_simp

lemma variant_allowed: "isAllowedModel ''openai/gpt-4:free''"
  by code_simp

text \<open>
  C8. Whatever the remote catalog, the ranking and the catalog file hold, no identifier
  that contains the variant delimiter \<open>:\<close> is among the models the discovery script adds;
  an allowed provider prefix makes no difference.
\<close>

theorem discovery_excludes_variant_ids:
  assumes "update_main env_key fetched_models rankedIds catalog = Appended newModels"
    and "CHR '':'' \<in> set cid"
  shows "cid \<notin> yaml_id ` set newModels"
proof -
  obtain allModels catalogIds where "newModels = discover rankedIds allModels catalogIds"
    using assms(1)
    by (auto simp: update_main_def Let_def split: if_splits sum.splits)
  then show ?thesis
    using new_models_loop_ids [of _ "set catalogIds" "build_candidates rankedIds allModels" "[]"]
      assms(2)
    by (auto simp: discover_def)
qed

text \<open>The scenario of the specification: \<open>openai/gpt-4:free\<close> passes the prefix filter and
  is left out, \<open>openai/gpt-4\<close> is added.\<close>

theorem discovery_excludes_variant_ids_witness:
  "update_main (Some ''key'') (Inr variant_catalog) [''openai/gpt-4:free''] (Inr []) =
     Appended [\<lparr>yaml_id = ''openai/gpt-4'', yaml_name = ''GPT-4'',
                 yaml_provider = ''OpenAI'', yaml_license = ''commercial''\<rparr>]
   \<and> CHR '':'' \<in> set ''openai/gpt-4:free''
   \<and> isAllowedModel ''openai/gpt-4:free''
   \<and> ''openai/gpt-4:free'' \<notin> yaml_id ` set [\<lparr>yaml_id = ''openai/gpt-4'', yaml_name = ''GPT-4'',
                 yaml_provider = ''OpenAI'', yaml_license = ''commercial''\<rparr>]"
  using discovery_excludes_variant_ids [OF variant_run, of "''openai/gpt-4:free''"]
    variant_run variant_allowed
  by simp

section \<open>The completion request: failures are recorded\<close>

lemma failed_simps [simp]:
  "success (failed m) = False"
  "content (failed m) = Some JNull"
  "error (failed m) = Some m"
  "topics (failed m) = None"
  by (simp_all add: failed_def)

lemma non_ok_result:
  "\<not> ok resp \<Longrightarrow> text_body resp = Inr text \<Longrightarrow>
   queryModel_result (Inr resp)
     = failed (''HTTP '' @ digits_of (status resp) @ '': '' @ take 200 text)"
  by (simp add: queryModel_result_def queryModel_try_def and_then_def slice0_def)

lemma server_error_not_ok: "\<not> ok server_error"
  by (simp add: ok_def server_error_def)

section \<open>The completion request: the shape of every failure\<close>

lemma get_member_Inr_iff: "(\<exists>y. get_member v k = Inr y) \<longleftrightarrow> \<not> nullish v"
  by (auto simp: get_member_def nullish_def split: option.splits json.splits)

lemma get_member_total: "\<not> nullish v \<Longrightarrow> \<exists>y. get_member v k = Inr y"
  using get_member_Inr_iff by blast

lemma get_member_defined: "get_member v k = Inr x \<Longrightarrow> \<not> nullish v"
  using get_member_Inr_iff by blast

lemma usage_defined: "\<not> nullish (nullish_or u (Some (JObj [])))"
  by (simp add: nullish_or_def nullish_def)

lemma try_success:
  assumes "ok resp" "json_body resp = Inr data" "content_path data = Inr c"
  shows "\<exists>r. queryModel_try (Inr resp) = Inr r \<and> success r \<and> content r = c \<and> error r = None"
proof -
  from assms(3) obtain choices choice message where
    1: "get_member (Some data) ''choices'' = Inr choices" and
    2: "get_first choices = Inr choice" and
    3: "get_member choice ''message'' = Inr message" and
    4: "get_member message ''content'' = Inr c"
    by (auto simp: content_path_def and_then_def split: sum.splits)
  obtain rr where 5: "get_member message ''reasoning'' = Inr rr"
    using get_member_total [OF get_member_defined [OF 4]] by blast
  obtain ur where 6: "get_member (Some data) ''usage'' = Inr ur"
    using get_member_total [OF get_member_defined [OF 1]] by blast
  obtain pt where 7: "get_member (nullish_or ur (Some (JObj []))) ''prompt_tokens'' = Inr pt"
    using get_member_total [OF usage_defined] by blast
  obtain ct where 8: "get_member (nullish_or ur (Some (JObj []))) ''completion_tokens'' = Inr ct"
    using get_member_total [OF usage_defined] by blast
  obtain rt where 9: "get_member (nullish_or ur (Some (JObj []))) ''reasoning_tokens'' = Inr rt"
    using get_member_total [OF usage_defined] by blast
  obtain fr where 10: "get_member choice ''finish_reason'' = Inr fr"
    using get_member_total [OF get_member_defined [OF 3]] by blast
  show ?thesis
    using assms(1,2) 1 2 3 4 5 6 7 8 9 10
    by (simp add: queryModel_try_def and_then_def Let_def)
qed

lemma try_failure:
  assumes "ok resp" "json_body resp = Inr data" "content_path data = Inl err"
  shows "queryModel_try (Inr resp) = Inl err"
  using assms
  by (auto simp: queryModel_try_def content_path_def and_then_def split: sum.splits)

lemma catch_props:
  "\<not> success (queryModel_catch err)"
  "content (queryModel_catch err) = Some JNull"
  "\<exists>e. error (queryModel_catch err) = Some e \<and> length e \<le> 200"
  by (simp_all add: queryModel_catch_def slice0_def)

lemma result_by_verdict:
  "(case verdict_of fetched of
      Caught err \<Rightarrow> queryModel_result fetched = queryModel_catch err
    | HttpError resp text \<Rightarrow>
        queryModel_result fetched
          = failed (''HTTP '' @ digits_of (status resp) @ '': '' @ take 200 text)
    | Success \<Rightarrow> success (queryModel_result fetched))"
proof (cases fetched)
  case (Inl err)
  then show ?thesis
    by (simp add: verdict_of_def queryModel_result_def queryModel_try_def and_then_def)
next
  case (Inr resp)
  show ?thesis
  proof (cases "ok resp")
    case False
    then show ?thesis using Inr
      by (cases "text_body resp")
         (simp_all add: verdict_of_def queryModel_result_def queryModel_try_def and_then_def
            slice0_def)
  next
    case True
    show ?thesis
    proof (cases "json_body resp")
      case (Inl err)
      then show ?thesis using Inr True
        by (simp add: verdict_of_def queryModel_result_def queryModel_try_def and_then_def)
    next
      case data: (Inr data)
      show ?thesis
      proof (cases "content_path data")
        case (Inl err)
        then show ?thesis using Inr True data try_failure [OF True data Inl]
          by (simp add: verdict_of_def queryModel_result_def)
      next
        case c: (Inr c)
        then show ?thesis using Inr True data try_success [OF True data c]
          by (auto simp: verdict_of_def queryModel_result_def)
      qed
    qed
  qed
qed

text \<open>
  C9, as amended. \<open>queryModel\<close> always returns a result (it is a total function: every
  throw of the \<open>try\<close> block is handled by the \<open>catch\<close> clause). The result has
  \<open>success = false\<close> exactly when \<open>fetch\<close> throws, the status is not 2xx, the JSON body
  cannot be read, or reading \<open>data.choices[0].message.content\<close> throws; it then has
  \<open>content = null\<close> and an error string, which is at most 200 characters long or is
  \<open>HTTP <status>: \<close> followed by the first 200 characters of the body. The error is
  exactly \<open>timeout\<close> when \<open>fetch\<close> throws a \<open>TimeoutError\<close>, and otherwise the first
  200 characters of the thrown message.
\<close>

theorem queryModel_failure_shape:
  "(\<not> success (queryModel_result fetched) \<longleftrightarrow>
      (\<exists>err. fetched = Inl err)
      \<or> (\<exists>resp. fetched = Inr resp \<and>
            (\<not> ok resp
             \<or> (\<exists>err. json_body resp = Inl err)
             \<or> (\<exists>data err. json_body resp = Inr data \<and> content_path data = Inl err))))
   \<and> (\<not> success (queryModel_result fetched) \<longrightarrow>
        content (queryModel_result fetched) = Some JNull
        \<and> (\<exists>e. error (queryModel_result fetched) = Some e
              \<and> (length e \<le> 200
                  \<or> (\<exists>resp text. fetched = Inr resp \<and> \<not> ok resp \<and> text_body resp = Inr text
                        \<and> e = ''HTTP '' @ digits_of (status resp) @ '': '' @ take 200 text))))
   \<and> (\<forall>err. fetched = Inl err \<and> thrown_name err = Some ''TimeoutError''
          \<longrightarrow> error (queryModel_result fetched) = Some ''timeout'')
   \<and> (\<forall>err. fetched = Inl err \<and> thrown_name err \<noteq> Some ''TimeoutError''
          \<longrightarrow> error (queryModel_result fetched)
               = Some (take 200 (case thrown_message err of
                                   Some m \<Rightarrow> m | None \<Rightarrow> thrown_string err)))"
proof (intro conjI)
  show "(\<not> success (queryModel_result fetched)) \<longleftrightarrow>
      ((\<exists>err. fetched = Inl err)
      \<or> (\<exists>resp. fetched = Inr resp \<and>
            (\<not> ok resp
             \<or> (\<exists>err. json_body resp = Inl err)
             \<or> (\<exists>data err. json_body resp = Inr data \<and> content_path data = Inl err))))"
    using result_by_verdict [of fetched] catch_props(1)
    by (auto simp: verdict_of_def split: sum.splits if_splits)
  show "\<not> success (queryModel_result fetched) \<longrightarrow>
        content (queryModel_result fetched) = Some JNull
        \<and> (\<exists>e. error (queryModel_result fetched) = Some e
              \<and> (length e \<le> 200
                  \<or> (\<exists>resp text. fetched = Inr resp \<and> \<not> ok resp \<and> text_body resp = Inr text
                        \<and> e = ''HTTP '' @ digits_of (status resp) @ '': '' @ take 200 text)))"
    using result_by_verdict [of fetched] catch_props
    by (auto simp: verdict_of_def split: sum.splits if_splits)
  show "\<forall>err. fetched = Inl err \<and> thrown_name err = Some ''TimeoutError''
          \<longrightarrow> error (queryModel_result fetched) = Some ''timeout''"
    by (simp add: queryModel_result_def queryModel_try_def and_then_def queryModel_catch_def)
  show "\<forall>err. fetched = Inl err \<and> thrown_name err \<noteq> Some ''TimeoutError''
          \<longrightarrow> error (queryModel_result fetched)
               = Some (take 200 (case thrown_message err of
                                   Some m \<Rightarrow> m | None \<Rightarrow> thrown_string err))"
    by (simp add: queryModel_result_def queryModel_try_def and_then_def queryModel_catch_def
        slice0_def)
qed

theorem queryModel_failure_shape_witness:
  "\<not> ok server_error
   \<and> \<not> success (queryModel_result (Inr server_error))
   \<and> content (queryModel_result (Inr server_error)) = Some JNull
   \<and> thrown_name timeout_error = Some ''TimeoutError''
   \<and> error (queryModel_result (Inl timeout_error)) = Some ''timeout''"
proof -
  have n: "thrown_name timeout_error = Some ''TimeoutError''"
    by (simp add: timeout_error_def)
  show ?thesis
    using queryModel_failure_shape [of "Inr server_error"]
      queryModel_failure_shape [of "Inl timeout_error"] server_error_not_ok n
    by blast
qed

lemma digits_500: "digits_of 500 = ''500''"
  by code_simp

text \<open>
  C9 as stated fails: a server error with a long body gives an error string of 210
  characters, a 2xx reply without \<open>content\<close> gives \<open>success = true\<close>, and a thrown value
  with an empty message gives the empty error string.
\<close>

theorem queryModel_failure_counterexample:
  "error (queryModel_result (Inr server_error))
     = Some (''HTTP 500: '' @ replicate 200 CHR ''x'')
   \<and> length (''HTTP 500: '' @ replicate 200 CHR ''x'') = 210
   \<and> success (queryModel_result (Inr reply_without_content))
   \<and> error (queryModel_result (Inl blank_error)) = Some []"
proof -
  have "error (queryModel_result (Inr server_error))
          = Some (''HTTP 500: '' @ replicate 200 CHR ''x'')"
    using non_ok_result [OF server_error_not_ok, of "replicate 300 CHR ''x''"] digits_500
    by (simp add: server_error_def)
  moreover have "success (queryModel_result (Inr reply_without_content))"
    by (simp add: reply_without_content_def queryModel_result_def queryModel_try_def
        and_then_def ok_def get_member_def get_first_def nullish_or_def nullish_def
        truthy_def Let_def)
  moreover have "error (queryModel_result (Inl blank_error)) = Some []"
    by (simp add: blank_error_def queryModel_result_def queryModel_try_def and_then_def
        queryModel_catch_def slice0_def)
  ultimately show ?thesis by simp
qed

section \<open>The topic classifier\<close>

lemma match_here_literal: "match_here (map Lit w) (w @ post)"
  by (induction w) auto

lemma test_of_match: "match_here r s \<Longrightarrow> test r (pre @ s)"
proof (induction pre)
  case Nil
  then show ?case by (cases s) auto
next
  case (Cons a pre)
  then show ?case by simp
qed

lemma RegExp_jellyfish: "RegExp ''jellyfish'' = map Lit ''jellyfish''"
  by simp

lemma test_jellyfish: "test (RegExp ''jellyfish'') (pre @ ''jellyfish'' @ post)"
  unfolding RegExp_jellyfish
  by (rule test_of_match) (rule match_here_literal)

lemma topics_loop_acc: "set acc \<subseteq> set (topics_loop table lower acc)"
  by (induction table lower acc rule: topics_loop.induct) auto

lemma topics_loop_member:
  "(topic, kws) \<in> set table \<Longrightarrow> any_keyword kws lower
     \<Longrightarrow> topic \<in> set (topics_loop table lower acc)"
proof (induction table lower acc rule: topics_loop.induct)
  case (1 lower topics)
  then show ?case by simp
next
  case (2 t ks rest lower topics)
  show ?case
  proof (cases "(topic, kws) = (t, ks)")
    case True
    then have "topic \<in> set (if any_keyword ks lower then topics @ [t] else topics)"
      using 2(3) by simp
    then show ?thesis
      using topics_loop_acc [of "if any_keyword ks lower then topics @ [t] else topics" rest lower]
      by auto
  next
    case False
    then have "(topic, kws) \<in> set rest" using 2(2) by auto
    then show ?thesis using 2(1) 2(3) by simp
  qed
qed

lemma char_codes:
  "char_of (106::nat) = CHR ''j''" "char_of (101::nat) = CHR ''e''"
  "char_of (108::nat) = CHR ''l''" "char_of (121::nat) = CHR ''y''"
  "char_of (102::nat) = CHR ''f''" "char_of (105::nat) = CHR ''i''"
  "char_of (115::nat) = CHR ''s''" "char_of (104::nat) = CHR ''h''"
  by code_simp+

lemma lower_letter:
  "l \<in> set ''jellyfish'' \<Longrightarrow> c = l \<or> c = toUpperCase_char l \<Longrightarrow> toLowerCase_char c = l"
  by (auto simp: toLowerCase_char_def toUpperCase_char_def Let_def char_codes)

lemma lower_word:
  "list_all2 (\<lambda>c l. c = l \<or> c = toUpperCase_char l) w ls \<Longrightarrow> set ls \<subseteq> set ''jellyfish''
     \<Longrightarrow> map toLowerCase_char w = ls"
proof (induction w ls rule: list_all2_induct)
  case Nil
  then show ?case by simp
next
  case (Cons c w l ls)
  then have "toLowerCase_char c = l" using lower_letter [of l c] by auto
  then show ?case using Cons by simp
qed

text \<open>
  C7. A text that contains \<open>jellyfish\<close> somewhere, in any letter case, gets the topic
  \<open>jellyfish\<close>.
\<close>

theorem jellyfish_detected:
  assumes "text = pre @ w @ post" and "spelled_in_any_case w ''jellyfish''"
  shows "''jellyfish'' \<in> set (detectTopics text)"
proof -
  have "map toLowerCase_char w = ''jellyfish''"
    using assms(2) lower_word [of w "''jellyfish''"] by (simp add: spelled_in_any_case_def)
  then have "toLowerCase text = toLowerCase pre @ ''jellyfish'' @ toLowerCase post"
    using assms(1) by (simp add: toLowerCase_def)
  then have "any_keyword [''jellyfish'', ''medusa'', ''cnidarian''] (toLowerCase text)"
    using test_jellyfish [of "toLowerCase pre" "toLowerCase post"] by simp
  moreover have "(''jellyfish'', [''jellyfish'', ''medusa'', ''cnidarian'']) \<in> set topicKeywords"
    by (simp add: topicKeywords_def)
  ultimately show ?thesis
    unfolding detectTopics_def by (rule topics_loop_member [rotated])
qed

theorem jellyfish_detected_witness:
  "''I saw a JellyFISH today'' = ''I saw a '' @ ''JellyFISH'' @ '' today''
   \<and> spelled_in_any_case ''JellyFISH'' ''jellyfish''
   \<and> ''jellyfish'' \<in> set (detectTopics ''I saw a JellyFISH today'')"
proof -
  have a: "''I saw a JellyFISH today'' = ''I saw a '' @ ''JellyFISH'' @ '' today''"
    by simp
  have b: "spelled_in_any_case ''JellyFISH'' ''jellyfish''"
    by code_simp
  show ?thesis
    using jellyfish_detected [OF a b] a b by blast
qed

lemma topics_loop_filter:
  "topics_loop table lower acc
     = acc @ map fst (filter (\<lambda>e. any_keyword (snd e) lower) table)"
  by (induction table lower acc rule: topics_loop.induct) auto

text \<open>
  An invocation on the heap: each keyword is tested on a \<open>RegExp\<close> object that the
  invocation has just made, without flags, so the test starts at index 0 and leaves no
  state; the registry is enumerated in the order of its literal, none of its labels
  being an array index. So an invocation returns what the classifier computes from the
  text, whatever the heap holds. A \<open>RegExp\<close> with the flag \<open>g\<close> that is used twice does
  not have this property.
\<close>

lemma match_end_iff: "(match_end r s \<noteq> None) = match_here r s"
  by (induction r s rule: match_end.induct) (auto split: option.splits)

lemma search_iff: "(search r s pos \<noteq> None) = test r s"
  by (induction s arbitrary: pos) (auto simp: match_end_iff [symmetric] split: option.splits)

lemma fresh_test:
  "RegExp_test (length h) s (snd (new_RegExp kw h)) = (test (RegExp kw) s, snd (new_RegExp kw h))"
  using search_iff [of "RegExp kw" s 0]
  by (auto simp: RegExp_test_def new_RegExp_def Let_def split: option.splits)

lemma any_keyword_in_pure: "fst (any_keyword_in kws lower h) = any_keyword kws lower"
proof (induction kws arbitrary: h)
  case Nil
  show ?case by simp
next
  case (Cons kw kws)
  have n: "new_RegExp kw h = (length h, snd (new_RegExp kw h))"
    by (simp add: new_RegExp_def)
  show ?case
    by (subst any_keyword_in.simps, subst n) (simp add: fresh_test Cons.IH)
qed

lemma topics_loop_in_pure:
  "fst (topics_loop_in es lower found h) = topics_loop es lower found"
proof (induction es arbitrary: found h)
  case Nil
  show ?case by simp
next
  case (Cons e es)
  obtain topic kws where e: "e = (topic, kws)" by (cases e)
  obtain m h1 where a: "any_keyword_in kws lower h = (m, h1)"
    by (cases "any_keyword_in kws lower h")
  have "m = any_keyword kws lower"
    using any_keyword_in_pure [of kws lower h] a by simp
  then show ?case
    by (simp add: e a Cons.IH)
qed

lemma registry_enumeration: "Object_entries (object_literal topicKeywords) = topicKeywords"
  by code_simp

lemma detectTopics_in_pure: "fst (detectTopics_in text h) = detectTopics text"
  by (simp add: detectTopics_in_def detectTopics_def registry_enumeration topics_loop_in_pure)

lemma global_regexp_stateful:
  "RegExp_test 0 ''sloth'' [\<lparr>pattern = RegExp ''sloth'', global = True, sticky = False, lastIndex = 0\<rparr>]
     = (True, [\<lparr>pattern = RegExp ''sloth'', global = True, sticky = False, lastIndex = 5\<rparr>])
   \<and> RegExp_test 0 ''sloth'' used_heap
     = (False, [\<lparr>pattern = RegExp ''sloth'', global = True, sticky = False, lastIndex = 0\<rparr>])"
  by code_simp

text \<open>
  C5. Two invocations of topic detection on the same text return the same list of
  topics, element for element and in the same order: on any two heaps of \<open>RegExp\<close>
  objects, and in particular the second on the heap that the first has left.
\<close>

theorem detectTopics_deterministic:
  "fst (detectTopics_in text h1) = fst (detectTopics_in text h2)
   \<and> fst (detectTopics_in text (snd (detectTopics_in text h1))) = fst (detectTopics_in text h1)"
  by (simp add: detectTopics_in_pure)

theorem detectTopics_deterministic_witness:
  "fst (detectTopics_in ''Jellyfish and sloths'' []) = [''jellyfish'', ''sloths'']
   \<and> fst (detectTopics_in ''Jellyfish and sloths'' used_heap) = [''jellyfish'', ''sloths'']
   \<and> fst (detectTopics_in ''Jellyfish and sloths''
             (snd (detectTopics_in ''Jellyfish and sloths'' []))) = [''jellyfish'', ''sloths'']"
proof -
  have a: "fst (detectTopics_in ''Jellyfish and sloths'' []) = [''jellyfish'', ''sloths'']"
    by code_simp
  from detectTopics_deterministic [of "''Jellyfish and sloths''" "[]" used_heap] a
  show ?thesis by simp
qed

section \<open>The retry ladder\<close>

lemma retry_continue:
  "success r \<Longrightarrow> content_blank (content r) = Inr True \<Longrightarrow> retries < length retryTokens \<Longrightarrow>
   retry_loop remote modelId p t k retries r sent
     = retry_loop remote modelId p t k (Suc retries)
         (queryModel_result (remote sent (payload modelId p t (retryTokens ! retries) k)))
         (sent @ [payload modelId p t (retryTokens ! retries) k])"
  by (subst retry_loop.simps) (simp add: queryModel_def)

lemma retry_stop:
  "success r \<Longrightarrow> content_blank (content r) = Inr False \<Longrightarrow>
   retry_loop remote modelId p t k retries r sent = (Inr r, sent)"
  by (subst retry_loop.simps) simp

lemma retry_exhausted:
  "success r \<Longrightarrow> content_blank (content r) = Inr True \<Longrightarrow> \<not> retries < length retryTokens \<Longrightarrow>
   retry_loop remote modelId p t k retries r sent = (Inr r, sent)"
  by (subst retry_loop.simps) simp

lemma retry_failed:
  "\<not> success r \<Longrightarrow> retry_loop remote modelId p t k retries r sent = (Inr r, sent)"
  by (subst retry_loop.simps) simp

lemma retry_thrown:
  "success r \<Longrightarrow> content_blank (content r) = Inl e \<Longrightarrow>
   retry_loop remote modelId p t k retries r sent = (Inl e, sent)"
  by (subst retry_loop.simps) simp

lemma blank_success_blank: "blank_success r \<Longrightarrow> content_blank (content r) = Inr True"
  by (auto simp: blank_success_def content_blank_def truthy_def)

lemma text_not_blank: "trim c \<noteq> [] \<Longrightarrow> content_blank (Some (JStr c)) = Inr False"
  by (auto simp: content_blank_def truthy_def trim_def)

lemma retryTokens_simps:
  "length retryTokens = 3" "retryTokens ! 0 = 2500" "retryTokens ! Suc 0 = 5000"
  "retryTokens ! Suc (Suc 0) = 10000"
  by (simp_all add: retryTokens_def)

lemma attach_topics_text:
  "success r \<Longrightarrow> content r = Some (JStr s) \<Longrightarrow>
   attach_topics r = Inr (r\<lparr>topics := Some (detectTopics s)\<rparr>)"
  by (simp add: attach_topics_def detectTopics_value_def and_then_def)

text \<open>
  C2. When the first request and the first boosted retry come back successful with empty
  content and the second boosted retry comes back successful with a text that is not
  blank, the stored result is that of the third request with its topics attached:
  \<open>success = true\<close> with that text, and the request that produced it carried the budget
  5000 of the ladder, whatever \<open>max_tokens\<close> the configuration has.
\<close>

theorem boosted_retry_succeeds:
  assumes "r0 = queryModel_result (remote sent (payload modelId p t maxTokens k))"
    and "success r0" and "content_blank (content r0) = Inr True"
    and "r1 = queryModel_result
                (remote (sent @ [payload modelId p t maxTokens k]) (payload modelId p t 2500 k))"
    and "success r1" and "content_blank (content r1) = Inr True"
    and "r2 = queryModel_result
                (remote (sent @ [payload modelId p t maxTokens k, payload modelId p t 2500 k])
                   (payload modelId p t 5000 k))"
    and "success r2" and "content r2 = Some (JStr c)" and "trim c \<noteq> []"
  shows "run_once remote modelId p t maxTokens k sent
           = (Inr (r2\<lparr>topics := Some (detectTopics c)\<rparr>),
              sent @ [payload modelId p t maxTokens k, payload modelId p t 2500 k,
                      payload modelId p t 5000 k])
         \<and> success (r2\<lparr>topics := Some (detectTopics c)\<rparr>)
         \<and> content (r2\<lparr>topics := Some (detectTopics c)\<rparr>) = Some (JStr c)
         \<and> req_max_tokens (payload modelId p t 5000 k) = retryTokens ! 1
         \<and> retryTokens ! 1 = 5000"
proof -
  let ?q0 = "payload modelId p t maxTokens k"
  let ?q1 = "payload modelId p t 2500 k"
  let ?q2 = "payload modelId p t 5000 k"
  have "retry_loop remote modelId p t k 0 r0 (sent @ [?q0])
          = retry_loop remote modelId p t k 1 r1 (sent @ [?q0, ?q1])"
    using retry_continue [OF assms(2,3), of 0 remote modelId p t k "sent @ [?q0]"] assms(4)
    by (simp add: retryTokens_simps)
  also have "\<dots> = retry_loop remote modelId p t k 2 r2 (sent @ [?q0, ?q1, ?q2])"
    using retry_continue [OF assms(5,6), of 1 remote modelId p t k "sent @ [?q0, ?q1]"] assms(7)
    by (simp add: retryTokens_simps numeral_2_eq_2)
  also have "\<dots> = (Inr r2, sent @ [?q0, ?q1, ?q2])"
    using retry_stop [OF assms(8)] text_not_blank [OF assms(10)] assms(9) by simp
  finally have loop: "retry_loop remote modelId p t k 0 r0 (sent @ [?q0])
                        = (Inr r2, sent @ [?q0, ?q1, ?q2])" .
  have "run_once remote modelId p t maxTokens k sent
          = (attach_topics r2, sent @ [?q0, ?q1, ?q2])"
    using loop assms(1) by (simp add: run_once_def queryModel_def and_then_def)
  then show ?thesis
    using attach_topics_text [OF assms(8,9)] assms(8,9)
    by (simp add: retryTokens_simps payload_def)
qed

text \<open>
  C1, as amended. When the configured request and the three boosted requests of a run
  (budgets 2500, 5000 and 10000) each come back successful with a content string that is
  empty after trimming, the run sends exactly these four requests and stores the reply
  to the last one unchanged but for its topics: \<open>success = true\<close>, the blank content,
  and the topics detected in it. Blank content is accepted once the ladder is exhausted.
\<close>

theorem exhausted_ladder_keeps_blank:
  assumes "r0 = queryModel_result (remote sent (payload modelId p t maxTokens k))"
    and "blank_success r0"
    and "r1 = queryModel_result
                (remote (sent @ [payload modelId p t maxTokens k]) (payload modelId p t 2500 k))"
    and "blank_success r1"
    and "r2 = queryModel_result
                (remote (sent @ [payload modelId p t maxTokens k, payload modelId p t 2500 k])
                   (payload modelId p t 5000 k))"
    and "blank_success r2"
    and "r3 = queryModel_result
                (remote (sent @ [payload modelId p t maxTokens k, payload modelId p t 2500 k,
                                 payload modelId p t 5000 k])
                   (payload modelId p t 10000 k))"
    and "success r3" and "content r3 = Some (JStr s)" and "trim s = []"
  shows "run_once remote modelId p t maxTokens k sent
           = (Inr (r3\<lparr>topics := Some (detectTopics s)\<rparr>),
              sent @ [payload modelId p t maxTokens k, payload modelId p t 2500 k,
                      payload modelId p t 5000 k, payload modelId p t 10000 k])
         \<and> success (r3\<lparr>topics := Some (detectTopics s)\<rparr>)
         \<and> content (r3\<lparr>topics := Some (detectTopics s)\<rparr>) = Some (JStr s)
         \<and> error (r3\<lparr>topics := Some (detectTopics s)\<rparr>) = error r3"
proof -
  let ?q0 = "payload modelId p t maxTokens k"
  let ?q1 = "payload modelId p t 2500 k"
  let ?q2 = "payload modelId p t 5000 k"
  let ?q3 = "payload modelId p t 10000 k"
  have b3: "blank_success r3"
    using assms(8,9,10) by (simp add: blank_success_def)
  have s: "success r0" "success r1" "success r2"
    using assms(2,4,6) by (simp_all add: blank_success_def)
  have c: "content_blank (content r0) = Inr True" "content_blank (content r1) = Inr True"
    "content_blank (content r2) = Inr True" "content_blank (content r3) = Inr True"
    using assms(2,4,6) b3 by (simp_all add: blank_success_blank)
  have "retry_loop remote modelId p t k 0 r0 (sent @ [?q0])
          = retry_loop remote modelId p t k 1 r1 (sent @ [?q0, ?q1])"
    using retry_continue [OF s(1) c(1), of 0 remote modelId p t k "sent @ [?q0]"] assms(3)
    by (simp add: retryTokens_simps)
  also have "\<dots> = retry_loop remote modelId p t k 2 r2 (sent @ [?q0, ?q1, ?q2])"
    using retry_continue [OF s(2) c(2), of 1 remote modelId p t k "sent @ [?q0, ?q1]"] assms(5)
    by (simp add: retryTokens_simps numeral_2_eq_2)
  also have "\<dots> = retry_loop remote modelId p t k 3 r3 (sent @ [?q0, ?q1, ?q2, ?q3])"
    using retry_continue [OF s(3) c(3), of 2 remote modelId p t k "sent @ [?q0, ?q1, ?q2]"]
      assms(7)
    by (simp add: retryTokens_simps numeral_2_eq_2 numeral_3_eq_3)
  also have "\<dots> = (Inr r3, sent @ [?q0, ?q1, ?q2, ?q3])"
    using retry_exhausted [OF assms(8) c(4), of 3] by (simp add: retryTokens_simps)
  finally have loop: "retry_loop remote modelId p t k 0 r0 (sent @ [?q0])
                        = (Inr r3, sent @ [?q0, ?q1, ?q2, ?q3])" .
  have "run_once remote modelId p t maxTokens k sent
          = (attach_topics r3, sent @ [?q0, ?q1, ?q2, ?q3])"
    using loop assms(1) by (simp add: run_once_def queryModel_def and_then_def)
  then show ?thesis
    using attach_topics_text [OF assms(8,9)] assms(8,9)
    by simp
qed

lemma reply_with_result:
  "queryModel_result (Inr (reply_with c))
     = \<lparr>success = True, content = Some c, tokens_prompt = Some (JNum 0),
        tokens_completion = Some (JNum 0), tokens_reasoning = None,
        finish_reason = Some (JStr ''unknown''), topics = None, reasoning = None,
        error = None\<rparr>"
  by (simp add: reply_with_def queryModel_result_def queryModel_try_def and_then_def ok_def
      get_member_def get_first_def nullish_or_def nullish_def truthy_def Let_def)

lemma trim_space: "trim '' '' = []"
  by (simp add: trim_def isWhiteSpace_def)

lemma always_blank_success: "blank_success (queryModel_result (always_blank sent' rq))"
  by (simp add: always_blank_def reply_with_result blank_success_def trim_space)

theorem exhausted_ladder_keeps_blank_witness:
  "blank_success (queryModel_result (always_blank [] (payload ''m'' ''p'' 1 1000 ''k'')))
   \<and> trim '' '' = []
   \<and> run_once always_blank ''m'' ''p'' 1 1000 ''k'' []
       = (Inr ((queryModel_result (Inr (reply_with (JStr '' ''))))
                 \<lparr>topics := Some (detectTopics '' '')\<rparr>),
          [payload ''m'' ''p'' 1 1000 ''k'', payload ''m'' ''p'' 1 2500 ''k'',
           payload ''m'' ''p'' 1 5000 ''k'', payload ''m'' ''p'' 1 10000 ''k''])"
proof -
  let ?q0 = "payload ''m'' ''p'' 1 1000 ''k''"
  let ?q1 = "payload ''m'' ''p'' 1 2500 ''k''"
  let ?q2 = "payload ''m'' ''p'' 1 5000 ''k''"
  let ?q3 = "payload ''m'' ''p'' 1 10000 ''k''"
  let ?r = "queryModel_result (Inr (reply_with (JStr '' '')))"
  have r0: "?r = queryModel_result (always_blank [] ?q0)"
    and r1: "?r = queryModel_result (always_blank ([] @ [?q0]) ?q1)"
    and r2: "?r = queryModel_result (always_blank ([] @ [?q0, ?q1]) ?q2)"
    and r3: "?r = queryModel_result (always_blank ([] @ [?q0, ?q1, ?q2]) ?q3)"
    by (simp_all add: always_blank_def)
  have b: "blank_success ?r"
    using always_blank_success [of "[]" ?q0] by (simp add: always_blank_def)
  have s: "success ?r" and c: "content ?r = Some (JStr '' '')"
    by (simp_all add: reply_with_result)
  have run: "run_once always_blank ''m'' ''p'' 1 1000 ''k'' []
               = (Inr (?r\<lparr>topics := Some (detectTopics '' '')\<rparr>), [?q0, ?q1, ?q2, ?q3])"
    using exhausted_ladder_keeps_blank [OF r0 b r1 b r2 b r3 s c trim_space] by simp
  show ?thesis
    using run always_blank_success [of "[]" ?q0] trim_space by blast
qed

text \<open>
  C1 as stated fails: with an API that always answers with a single space, the stored
  result has \<open>success = true\<close> after the four requests.
\<close>

theorem exhausted_ladder_counterexample:
  "run_once always_blank ''m'' ''p'' 1 1000 ''k'' []
     = (Inr \<lparr>success = True, content = Some (JStr '' ''), tokens_prompt = Some (JNum 0),
              tokens_completion = Some (JNum 0), tokens_reasoning = None,
              finish_reason = Some (JStr ''unknown''), topics = Some [], reasoning = None,
              error = None\<rparr>,
        [payload ''m'' ''p'' 1 1000 ''k'', payload ''m'' ''p'' 1 2500 ''k'',
         payload ''m'' ''p'' 1 5000 ''k'', payload ''m'' ''p'' 1 10000 ''k''])"
  by code_simp

lemma blank_twice_replies:
  "queryModel_result (blank_twice [] q0) = queryModel_result (Inr (reply_with (JStr [])))"
  "queryModel_result (blank_twice [q0] q1) = queryModel_result (Inr (reply_with (JStr [])))"
  "queryModel_result (blank_twice [q0, q1] q2)
     = queryModel_result (Inr (reply_with (JStr ''Jellyfish can age backwards'')))"
  by (simp_all add: blank_twice_def)

lemma trim_fact: "trim ''Jellyfish can age backwards'' \<noteq> []"
  by code_simp

theorem boosted_retry_succeeds_witness:
  "success (queryModel_result (blank_twice [] (payload ''m'' ''p'' 1 1000 ''k'')))
   \<and> content_blank (content (queryModel_result (blank_twice [] (payload ''m'' ''p'' 1 1000 ''k''))))
       = Inr True
   \<and> trim ''Jellyfish can age backwards'' \<noteq> []
   \<and> fst (run_once blank_twice ''m'' ''p'' 1 1000 ''k'' [])
       = Inr ((queryModel_result (Inr (reply_with (JStr ''Jellyfish can age backwards''))))
               \<lparr>topics := Some (detectTopics ''Jellyfish can age backwards'')\<rparr>)
   \<and> map req_max_tokens (snd (run_once blank_twice ''m'' ''p'' 1 1000 ''k'' []))
       = [1000, 2500, 5000]"
proof -
  let ?q0 = "payload ''m'' ''p'' 1 1000 ''k''"
  let ?q1 = "payload ''m'' ''p'' 1 2500 ''k''"
  let ?q2 = "payload ''m'' ''p'' 1 5000 ''k''"
  let ?text = "''Jellyfish can age backwards''"
  have blank: "content_blank (Some (JStr [])) = Inr True"
    by (simp add: content_blank_def truthy_def)
  have r0: "queryModel_result (blank_twice [] ?q0)
              = queryModel_result (blank_twice [] ?q0)" ..
  have r1: "queryModel_result (blank_twice [?q0] ?q1)
              = queryModel_result (blank_twice ([] @ [?q0]) ?q1)" by simp
  have r2: "queryModel_result (blank_twice [?q0, ?q1] ?q2)
              = queryModel_result (blank_twice ([] @ [?q0, ?q1]) ?q2)" by simp
  have s0: "success (queryModel_result (blank_twice [] ?q0))"
    and c0: "content_blank (content (queryModel_result (blank_twice [] ?q0))) = Inr True"
    and s1: "success (queryModel_result (blank_twice [?q0] ?q1))"
    and c1: "content_blank (content (queryModel_result (blank_twice [?q0] ?q1))) = Inr True"
    and s2: "success (queryModel_result (blank_twice [?q0, ?q1] ?q2))"
    and c2: "content (queryModel_result (blank_twice [?q0, ?q1] ?q2)) = Some (JStr ?text)"
    by (simp_all add: blank_twice_replies reply_with_result blank)
  show ?thesis
    using boosted_retry_succeeds [OF r0 s0 c0 r1 s1 c1 r2 s2 c2 trim_fact] s0 c0 trim_fact
    by (simp add: blank_twice_replies payload_def)
qed

section \<open>Non-2xx replies inside a run\<close>

lemma non_ok_cases:
  "\<not> ok resp \<Longrightarrow>
   queryModel_result (Inr resp)
     = (case text_body resp of
          Inr text \<Rightarrow> failed (''HTTP '' @ digits_of (status resp) @ '': '' @ take 200 text)
        | Inl err \<Rightarrow> queryModel_catch err)"
  by (simp add: queryModel_result_def queryModel_try_def and_then_def slice0_def
      split: sum.splits)

lemma catch_failed:
  "queryModel_catch err
     = failed (if thrown_name err = Some ''TimeoutError'' then ''timeout''
               else take 200 (case thrown_message err of
                                Some m \<Rightarrow> m | None \<Rightarrow> thrown_string err))"
  by (simp add: queryModel_catch_def slice0_def)

lemma non_ok_failed: "\<not> ok resp \<Longrightarrow> \<exists>m. queryModel_result (Inr resp) = failed m"
  by (cases "text_body resp") (auto simp: non_ok_cases catch_failed)

lemma attach_failed: "attach_topics (failed m) = Inr (failed m)"
  by (simp add: attach_topics_def)

lemma run_once_first_failed:
  assumes "queryModel_result (remote sent (payload modelId p t maxTokens k)) = failed m"
  shows "run_once remote modelId p t maxTokens k sent
           = (Inr (failed m), sent @ [payload modelId p t maxTokens k])"
  using assms
  by (simp add: run_once_def queryModel_def retry_failed and_then_def attach_failed)

text \<open>
  C6, as amended. A request answered with a non-2xx status always gives a result with
  \<open>success = false\<close> and \<open>content = null\<close>. When the body is read, its error is
  \<open>HTTP <status>: \<close> followed by the first 200 characters of the body; when reading the
  body throws, the \<open>catch\<close> clause records \<open>timeout\<close> or the first 200 characters of the
  thrown message instead. Nothing is thrown to the batch: as the first request of a run,
  the result is stored and the loop over the runs goes on with the next run; as a boosted
  retry, the retry loop ends with it and it is stored unchanged.
\<close>

theorem http_error_recorded:
  assumes "\<not> ok resp"
  shows "\<not> success (queryModel_result (Inr resp))
         \<and> content (queryModel_result (Inr resp)) = Some JNull
         \<and> (\<forall>text. text_body resp = Inr text \<longrightarrow>
               error (queryModel_result (Inr resp))
                 = Some (''HTTP '' @ digits_of (status resp) @ '': '' @ take 200 text))
         \<and> (\<forall>err. text_body resp = Inl err \<longrightarrow>
               error (queryModel_result (Inr resp))
                 = Some (if thrown_name err = Some ''TimeoutError'' then ''timeout''
                         else take 200 (case thrown_message err of
                                          Some m \<Rightarrow> m | None \<Rightarrow> thrown_string err)))
         \<and> (remote sent (payload modelId p t maxTokens k) = Inr resp \<longrightarrow>
               run_once remote modelId p t maxTokens k sent
                 = (Inr (queryModel_result (Inr resp)), sent @ [payload modelId p t maxTokens k])
               \<and> runs_loop remote modelId p t maxTokens k (Suc n) rs sent
                   = runs_loop remote modelId p t maxTokens k n
                       (rs @ [queryModel_result (Inr resp)])
                       (sent @ [payload modelId p t maxTokens k]))
         \<and> (success r' \<and> content_blank (content r') = Inr True
               \<and> retries < length retryTokens
               \<and> remote sent' (payload modelId p t (retryTokens ! retries) k) = Inr resp \<longrightarrow>
               retry_loop remote modelId p t k retries r' sent'
                 = (Inr (queryModel_result (Inr resp)),
                    sent' @ [payload modelId p t (retryTokens ! retries) k])
               \<and> attach_topics (queryModel_result (Inr resp)) = Inr (queryModel_result (Inr resp)))"
proof -
  obtain m where m: "queryModel_result (Inr resp) = failed m"
    using non_ok_failed [OF assms] by blast
  have 1: "\<not> success (queryModel_result (Inr resp))"
    and 2: "content (queryModel_result (Inr resp)) = Some JNull"
    using m by simp_all
  have 3: "\<forall>text. text_body resp = Inr text \<longrightarrow>
               error (queryModel_result (Inr resp))
                 = Some (''HTTP '' @ digits_of (status resp) @ '': '' @ take 200 text)"
    using assms by (simp add: non_ok_cases)
  have 4: "\<forall>err. text_body resp = Inl err \<longrightarrow>
               error (queryModel_result (Inr resp))
                 = Some (if thrown_name err = Some ''TimeoutError'' then ''timeout''
                         else take 200 (case thrown_message err of
                                          Some m \<Rightarrow> m | None \<Rightarrow> thrown_string err))"
    using assms by (simp add: non_ok_cases catch_failed)
  have 5: "run_once remote modelId p t maxTokens k sent
                 = (Inr (queryModel_result (Inr resp)), sent @ [payload modelId p t maxTokens k])
               \<and> runs_loop remote modelId p t maxTokens k (Suc n) rs sent
                   = runs_loop remote modelId p t maxTokens k n
                       (rs @ [queryModel_result (Inr resp)])
                       (sent @ [payload modelId p t maxTokens k])"
    if "remote sent (payload modelId p t maxTokens k) = Inr resp"
  proof -
    have "run_once remote modelId p t maxTokens k sent
            = (Inr (failed m), sent @ [payload modelId p t maxTokens k])"
      using that m by (intro run_once_first_failed) simp
    then show ?thesis using m by simp
  qed
  have 6: "retry_loop remote modelId p t k retries r' sent'
                 = (Inr (queryModel_result (Inr resp)),
                    sent' @ [payload modelId p t (retryTokens ! retries) k])
               \<and> attach_topics (queryModel_result (Inr resp)) = Inr (queryModel_result (Inr resp))"
    if "success r' \<and> content_blank (content r') = Inr True
               \<and> retries < length retryTokens
               \<and> remote sent' (payload modelId p t (retryTokens ! retries) k) = Inr resp"
    using that m retry_continue [of r' retries remote modelId p t k sent']
    by (simp add: retry_failed attach_failed)
  show ?thesis
    using 1 2 3 4 5 6 by blast
qed

lemma run_once_all_failed:
  assumes "\<forall>s q. \<exists>resp. remote s q = Inr resp \<and> \<not> ok resp"
  shows "\<exists>m. run_once remote modelId p t maxTokens k sent
               = (Inr (failed m), sent @ [payload modelId p t maxTokens k])"
proof -
  obtain resp where "remote sent (payload modelId p t maxTokens k) = Inr resp" "\<not> ok resp"
    using assms by blast
  then obtain m where
    "queryModel_result (remote sent (payload modelId p t maxTokens k)) = failed m"
    using non_ok_failed by auto
  then show ?thesis
    using run_once_first_failed by blast
qed

lemma runs_loop_all_failed:
  assumes "\<forall>s q. \<exists>resp. remote s q = Inr resp \<and> \<not> ok resp"
  shows "\<exists>rs' s'. runs_loop remote modelId p t maxTokens k n rs sent = (Inr (rs @ rs'), s')
           \<and> length rs' = n \<and> list_all (\<lambda>r. \<not> success r) rs'"
proof (induction n arbitrary: rs sent)
  case 0
  then show ?case by simp
next
  case (Suc n)
  obtain m where m: "run_once remote modelId p t maxTokens k sent
               = (Inr (failed m), sent @ [payload modelId p t maxTokens k])"
    using run_once_all_failed [OF assms] by blast
  obtain rs' s' where
    "runs_loop remote modelId p t maxTokens k n (rs @ [failed m])
       (sent @ [payload modelId p t maxTokens k]) = (Inr ((rs @ [failed m]) @ rs'), s')"
    "length rs' = n" "list_all (\<lambda>r. \<not> success r) rs'"
    using Suc.IH by blast
  then show ?case
    using m by (intro exI [of _ "failed m # rs'"] exI [of _ s']) simp
qed

lemma models_loop_all_failed:
  assumes "\<forall>s q. \<exists>resp. remote s q = Inr resp \<and> \<not> ok resp"
  shows "\<exists>res s'. models_loop remote p t maxTokens k n existingIds ms results sent
                   = (Inr res, s')"
proof (induction ms arbitrary: results sent)
  case Nil
  then show ?case by simp
next
  case (Cons m ms)
  show ?case
  proof (cases "id_m m \<in> existingIds")
    case True
    then show ?thesis using Cons.IH by simp
  next
    case False
    obtain rs' s' where
      "runs_loop remote (id_m m) p t maxTokens k n [] sent = (Inr ([] @ rs'), s')"
      using runs_loop_all_failed [OF assms] by blast
    then show ?thesis
      using False Cons.IH by simp
  qed
qed

lemma batch_survives_http_errors:
  assumes "\<forall>s q. \<exists>resp. remote s q = Inr resp \<and> \<not> ok resp"
    and "env_key = Some key" and "key \<noteq> []"
    and "parse_args args (None, False, False) = (filterStr, False, append_mode)"
  shows "\<exists>ds sent. main args env_key (Inr config) data_file remote now = (Written ds, sent)"
proof -
  have "\<exists>res s'.
    models_loop remote (prompt config) (temperature config) (max_tokens config) key
       (nat (case runs_per_model config of None \<Rightarrow> 3 | Some n \<Rightarrow> n))
       (set (map id_m (if append_mode
                       then (case data_file of Inr (Some old) \<Rightarrow> old | _ \<Rightarrow> [])
                       else [])))
       (case filterStr of Some f \<Rightarrow> apply_filter f (models config) | None \<Rightarrow> models config)
       (if append_mode then (case data_file of Inr (Some old) \<Rightarrow> old | _ \<Rightarrow> []) else [])
       [] = (Inr res, s')"
    apply (insert models_loop_all_failed [OF assms(1)])
    apply assumption
    done
  then obtain res s' where ml:
    "models_loop remote (prompt config) (temperature config) (max_tokens config) key
       (nat (case runs_per_model config of None \<Rightarrow> 3 | Some n \<Rightarrow> n))
       (set (map id_m (if append_mode
                       then (case data_file of Inr (Some old) \<Rightarrow> old | _ \<Rightarrow> [])
                       else [])))
       (case filterStr of Some f \<Rightarrow> apply_filter f (models config) | None \<Rightarrow> models config)
       (if append_mode then (case data_file of Inr (Some old) \<Rightarrow> old | _ \<Rightarrow> []) else [])
       [] = (Inr res, s')"
    by (elim exE)
  have "fst (main args env_key (Inr config) data_file remote now)
          = Written (written (fst (main args env_key (Inr config) data_file remote now)))"
    unfolding main_def assms(4) assms(2) Let_def
    using assms(3)
    apply (simp only: prod.case option.case sum.case)
    apply (simp only: option.simps simp_thms if_False list.simps)
    apply (subst ml)+
    apply (simp only: prod.case sum.case fst_conv outcome.sel)
    done
  then show ?thesis
    by (metis prod.collapse)
qed

lemma broken_body_not_ok: "\<not> ok broken_body"
  by (simp add: ok_def broken_body_def)

lemma broken_body_error: "error (queryModel_result (Inr broken_body)) = Some ''timeout''"
  using non_ok_cases [OF broken_body_not_ok]
  by (simp add: broken_body_def timeout_error_def catch_failed)

theorem http_error_recorded_witness:
  "\<not> ok server_error
   \<and> \<not> success (queryModel_result (Inr server_error))
   \<and> error (queryModel_result (Inr server_error))
       = Some (''HTTP '' @ digits_of (status server_error) @ '': ''
               @ take 200 (replicate 300 CHR ''x''))
   \<and> run_once always_500 ''m'' ''p'' 1 1000 ''k'' []
       = (Inr (queryModel_result (Inr server_error)), [] @ [payload ''m'' ''p'' 1 1000 ''k''])"
proof -
  have a: "always_500 [] (payload ''m'' ''p'' 1 1000 ''k'') = Inr server_error"
    by (simp add: always_500_def)
  have b: "text_body server_error = Inr (replicate 300 CHR ''x'')"
    by (simp add: server_error_def)
  show ?thesis
    using http_error_recorded [OF server_error_not_ok, of always_500 "[]" "''m''" "''p''" 1
        1000 "''k''"] a b server_error_not_ok
    by blast
qed

text \<open>
  C6 as stated fails: for a server error whose body cannot be read the recorded error is
  \<open>timeout\<close>, not an \<open>HTTP\<close> error with a body.
\<close>

theorem http_error_counterexample:
  "\<not> ok broken_body \<and> error (queryModel_result (Inr broken_body)) = Some ''timeout''"
  using broken_body_not_ok broken_body_error by blast

section \<open>Append mode\<close>

lemma retry_loop_sent:
  "\<exists>extra. snd (retry_loop remote modelId p t k retries r sent) = sent @ extra
           \<and> (\<forall>rq \<in> set extra. req_model rq = modelId)"
proof (induction remote modelId p t k retries r sent rule: retry_loop.induct)
  case (1 remote modelId p t k retries r sent)
  show ?case
  proof (cases "success r \<and> content_blank (content r) = Inr True \<and> retries < length retryTokens")
    case True
    then obtain extra where
      "snd (retry_loop remote modelId p t k (Suc retries)
              (fst (queryModel remote sent modelId p t (retryTokens ! retries) k))
              (snd (queryModel remote sent modelId p t (retryTokens ! retries) k)))
         = snd (queryModel remote sent modelId p t (retryTokens ! retries) k) @ extra"
      "\<forall>rq \<in> set extra. req_model rq = modelId"
      using 1 [of True] by auto
    then show ?thesis
      using True
      by (subst retry_loop.simps)
         (auto simp: queryModel_def payload_def
            intro!: exI [of _ "payload modelId p t (retryTokens ! retries) k # extra"])
  next
    case False
    then show ?thesis
      by (subst retry_loop.simps) (auto split: sum.splits)
  qed
qed

lemma run_once_sent:
  "\<exists>extra. snd (run_once remote modelId p t maxTokens k sent) = sent @ extra
           \<and> (\<forall>rq \<in> set extra. req_model rq = modelId)"
proof -
  let ?q = "payload modelId p t maxTokens k"
  obtain extra where
    e: "snd (retry_loop remote modelId p t k 0 (queryModel_result (remote sent ?q)) (sent @ [?q]))
          = (sent @ [?q]) @ extra"
       "\<forall>rq \<in> set extra. req_model rq = modelId"
    using retry_loop_sent by blast
  have "snd (run_once remote modelId p t maxTokens k sent) = sent @ (?q # extra)"
    using e(1) by (auto simp: run_once_def queryModel_def split: prod.splits)
  moreover have "\<forall>rq \<in> set (?q # extra). req_model rq = modelId"
    using e(2) by (simp add: payload_def)
  ultimately show ?thesis by blast
qed

lemma runs_loop_sent:
  "\<exists>extra. snd (runs_loop remote modelId p t maxTokens k n rs sent) = sent @ extra
           \<and> (\<forall>rq \<in> set extra. req_model rq = modelId)"
proof (induction n arbitrary: rs sent)
  case 0
  then show ?case by simp
next
  case (Suc n)
  obtain res sent' where ro: "run_once remote modelId p t maxTokens k sent = (res, sent')"
    by (cases "run_once remote modelId p t maxTokens k sent")
  obtain e1 where e1: "sent' = sent @ e1" "\<forall>rq \<in> set e1. req_model rq = modelId"
    using run_once_sent [of remote modelId p t maxTokens k sent] ro by auto
  show ?case
  proof (cases res)
    case (Inl e)
    then show ?thesis using ro e1 by auto
  next
    case (Inr r)
    obtain e2 where e2:
      "snd (runs_loop remote modelId p t maxTokens k n (rs @ [r]) sent') = sent' @ e2"
      "\<forall>rq \<in> set e2. req_model rq = modelId"
      using Suc.IH by blast
    have "snd (runs_loop remote modelId p t maxTokens k (Suc n) rs sent) = sent @ (e1 @ e2)"
      using ro Inr e1(1) e2(1) by simp
    moreover have "\<forall>rq \<in> set (e1 @ e2). req_model rq = modelId"
      using e1(2) e2(2) by auto
    ultimately show ?thesis by blast
  qed
qed

lemma models_loop_sent:
  "\<exists>extra. snd (models_loop remote p t maxTokens k n existingIds ms results sent) = sent @ extra
           \<and> (\<forall>rq \<in> set extra. req_model rq \<notin> existingIds)"
proof (induction ms arbitrary: results sent)
  case Nil
  then show ?case by simp
next
  case (Cons m ms)
  show ?case
  proof (cases "id_m m \<in> existingIds")
    case True
    then show ?thesis using Cons.IH [of results sent] by simp
  next
    case False
    obtain res sent' where rl:
      "runs_loop remote (id_m m) p t maxTokens k n [] sent = (res, sent')"
      by (cases "runs_loop remote (id_m m) p t maxTokens k n [] sent")
    obtain e1 where e1: "sent' = sent @ e1" "\<forall>rq \<in> set e1. req_model rq = id_m m"
      using runs_loop_sent [of remote "id_m m" p t maxTokens k n "[]" sent] rl by auto
    show ?thesis
    proof (cases res)
      case (Inl e)
      then show ?thesis using rl e1 False by auto
    next
      case (Inr rs)
      obtain e2 where e2:
        "snd (models_loop remote p t maxTokens k n existingIds ms
                (results @ [new_entry m rs]) sent') = sent' @ e2"
        "\<forall>rq \<in> set e2. req_model rq \<notin> existingIds"
        using Cons.IH by blast
      have "snd (models_loop remote p t maxTokens k n existingIds (m # ms) results sent)
              = sent @ (e1 @ e2)"
        using rl Inr e1(1) e2(1) False by simp
      moreover have "\<forall>rq \<in> set (e1 @ e2). req_model rq \<notin> existingIds"
        using e1(2) e2(2) False by auto
      ultimately show ?thesis by blast
    qed
  qed
qed

lemma models_loop_results:
  "models_loop remote p t maxTokens k n existingIds ms results sent = (Inr res, sent')
   \<Longrightarrow> \<exists>new. res = results @ new
            \<and> list_all2 (\<lambda>e m. \<exists>rs. e = new_entry m rs)
                 new (filter (\<lambda>m. id_m m \<notin> existingIds) ms)"
proof (induction ms arbitrary: results sent)
  case Nil
  then show ?case by simp
next
  case (Cons m ms)
  show ?case
  proof (cases "id_m m \<in> existingIds")
    case True
    then show ?thesis using Cons.IH [of results sent] Cons.prems by simp
  next
    case False
    obtain r1 s1 where rl:
      "runs_loop remote (id_m m) p t maxTokens k n [] sent = (r1, s1)"
      by (cases "runs_loop remote (id_m m) p t maxTokens k n [] sent")
    show ?thesis
    proof (cases r1)
      case (Inl e)
      then show ?thesis using rl False Cons.prems by simp
    next
      case (Inr rs)
      then have "models_loop remote p t maxTokens k n existingIds ms
                   (results @ [new_entry m rs]) s1 = (Inr res, sent')"
        using rl False Cons.prems by simp
      then obtain new where
        "res = (results @ [new_entry m rs]) @ new"
        "list_all2 (\<lambda>e m. \<exists>rs. e = new_entry m rs) new (filter (\<lambda>m. id_m m \<notin> existingIds) ms)"
        using Cons.IH by blast
      then show ?thesis
        using False
        by (intro exI [of _ "new_entry m rs # new"]) auto
    qed
  qed
qed

lemma main_append_cases:
  assumes "main args env_key loaded (Inr (Some old)) remote now = (out, sent)"
    and "parse_args args (None, False, False) = (filterStr, dryRun, True)"
  shows "(sent = [] \<and> (\<forall>ds. out \<noteq> Written ds))
         \<or> (\<exists>config k n res.
               loaded = Inr config
               \<and> models_loop remote (prompt config) (temperature config) (max_tokens config) k n
                    (id_m ` set old) (selected filterStr config) old [] = (res, sent)
               \<and> (\<forall>ds. out = Written ds \<longrightarrow> res = Inr (models_out ds)))"
  using assms
  by (auto simp: main_def Let_def selected_def split: if_splits sum.splits prod.splits)

text \<open>
  C3. In append mode, for every entry \<open>x\<close> of the persisted dataset: no request the
  script sends names the model of \<open>x\<close> (however the script ends), and a dataset that is
  written holds \<open>x\<close>, with all its runs, at its old position: the persisted entries are
  the first entries of the output.
\<close>

theorem append_skips_existing:
  assumes "main args env_key loaded (Inr (Some old)) remote now = (out, sent)"
    and "parse_args args (None, False, False) = (filterStr, dryRun, True)"
    and "x \<in> set old"
  shows "(\<forall>rq \<in> set sent. req_model rq \<noteq> id_m x)
         \<and> (\<forall>ds. out = Written ds \<longrightarrow>
               x \<in> set (models_out ds) \<and> take (length old) (models_out ds) = old)"
proof -
  consider (none) "sent = []" "\<forall>ds. out \<noteq> Written ds"
    | (loop) config k n res where
        "models_loop remote (prompt config) (temperature config) (max_tokens config) k n
           (id_m ` set old) (selected filterStr config) old [] = (res, sent)"
        "\<forall>ds. out = Written ds \<longrightarrow> res = Inr (models_out ds)"
    using main_append_cases [OF assms(1,2)] by blast
  then show ?thesis
  proof cases
    case none
    then show ?thesis by simp
  next
    case loop
    have "\<forall>rq \<in> set sent. req_model rq \<notin> id_m ` set old"
      using models_loop_sent [of remote "prompt config" "temperature config" "max_tokens config"
          k n "id_m ` set old" "selected filterStr config" old "[]"] loop(1)
      by auto
    then have a: "\<forall>rq \<in> set sent. req_model rq \<noteq> id_m x"
      using assms(3) by auto
    have b: "x \<in> set (models_out ds) \<and> take (length old) (models_out ds) = old"
      if "out = Written ds" for ds
    proof -
      have "models_loop remote (prompt config) (temperature config) (max_tokens config) k n
           (id_m ` set old) (selected filterStr config) old [] = (Inr (models_out ds), sent)"
        using loop that by simp
      then obtain new where "models_out ds = old @ new"
        using models_loop_results by blast
      then show ?thesis using assms(3) by simp
    qed
    show ?thesis using a b by blast
  qed
qed

text \<open>
  C10. In append mode the models written are the persisted entries, in their order,
  followed by one new entry for each model of the catalog (after \<open>--filter\<close>) whose
  identifier is not among the persisted ones, in catalog order. Nothing is asked of the
  persisted entries: they may be absent from the catalog or excluded by the filter.
\<close>

theorem append_keeps_order:
  assumes "main args env_key (Inr config) (Inr (Some old)) remote now = (Written ds, sent)"
    and "parse_args args (None, False, False) = (filterStr, dryRun, True)"
  shows "\<exists>new. models_out ds = old @ new
           \<and> list_all2 (\<lambda>e m. \<exists>rs. e = new_entry m rs) new
                (filter (\<lambda>m. id_m m \<notin> id_m ` set old)
                   (case filterStr of
                      Some f \<Rightarrow> apply_filter f (models config)
                    | None \<Rightarrow> models config))"
proof -
  obtain k n where
    "models_loop remote (prompt config) (temperature config) (max_tokens config) k n
       (id_m ` set old) (selected filterStr config) old [] = (Inr (models_out ds), sent)"
    using main_append_cases [OF assms(1,2)] by auto
  then show ?thesis
    using models_loop_results unfolding selected_def by blast
qed

lemma append_run_written: "fst append_run = Written (written (fst append_run))"
  by code_simp

lemma append_run_facts:
  "map req_model (snd append_run) = [''mistralai/mistral-large'', ''qwen/qwen3'']"
  "map id_m (models_out (written (fst append_run)))
     = [''openai/gpt-4'', ''retired/model'', ''mistralai/mistral-large'', ''qwen/qwen3'']"
  by code_simp+

lemma filtered_run_written: "fst filtered_run = Written (written (fst filtered_run))"
  by code_simp

lemma filtered_run_facts:
  "map req_model (snd filtered_run) = [''qwen/qwen3'']"
  "map id_m (models_out (written (fst filtered_run)))
     = [''openai/gpt-4'', ''retired/model'', ''qwen/qwen3'']"
  by code_simp+

theorem append_skips_existing_witness:
  "parse_args [''--append''] (None, False, False) = (None, False, True)
   \<and> hd persisted \<in> set persisted
   \<and> id_m (hd persisted) = ''openai/gpt-4''
   \<and> map req_model (snd append_run) = [''mistralai/mistral-large'', ''qwen/qwen3'']
   \<and> ''openai/gpt-4'' \<notin> req_model ` set (snd append_run)
   \<and> hd persisted \<in> set (models_out (written (fst append_run)))
   \<and> take 2 (models_out (written (fst append_run))) = persisted"
proof -
  have m: "main [''--append''] (Some ''key'') (Inr sample_config) (Inr (Some persisted))
             jellyfish_api ''2026-01-01T00:00:00.000Z''
           = (Written (written (fst append_run)), snd append_run)"
    using append_run_written by (metis append_run_def prod.collapse)
  have p: "parse_args [''--append''] (None, False, False) = (None, False, True)"
    by simp
  have x: "hd persisted \<in> set persisted"
    by (simp add: persisted_def)
  have i: "id_m (hd persisted) = ''openai/gpt-4''" "length persisted = 2"
    by (simp_all add: persisted_def)
  have "\<forall>rq \<in> set (snd append_run). req_model rq \<noteq> ''openai/gpt-4''"
    using append_skips_existing [OF m p x] i(1) by simp
  then have n: "''openai/gpt-4'' \<notin> req_model ` set (snd append_run)"
    by auto
  show ?thesis
    using append_skips_existing [OF m p x] p x i n append_run_facts(1)
    by (simp add: numeral_2_eq_2)
qed

theorem append_keeps_order_witness:
  "parse_args [''--append'', ''--filter'', ''QWEN''] (None, False, False)
     = (Some ''QWEN'', False, True)
   \<and> map id_m (filter (\<lambda>m. id_m m \<notin> id_m ` set persisted)
                  (apply_filter ''QWEN'' (models sample_config))) = [''qwen/qwen3'']
   \<and> (\<exists>new. models_out (written (fst filtered_run)) = persisted @ new
          \<and> list_all2 (\<lambda>e m. \<exists>rs. e = new_entry m rs) new
               (filter (\<lambda>m. id_m m \<notin> id_m ` set persisted)
                  (apply_filter ''QWEN'' (models sample_config))))"
proof -
  have m: "main [''--append'', ''--filter'', ''QWEN''] (Some ''key'') (Inr sample_config)
             (Inr (Some persisted)) jellyfish_api ''2026-01-01T00:00:00.000Z''
           = (Written (written (fst filtered_run)), snd filtered_run)"
    using filtered_run_written by (metis filtered_run_def prod.collapse)
  have p: "parse_args [''--append'', ''--filter'', ''QWEN''] (None, False, False)
             = (Some ''QWEN'', False, True)"
    by simp
  have f: "map id_m (filter (\<lambda>m. id_m m \<notin> id_m ` set persisted)
                       (apply_filter ''QWEN'' (models sample_config))) = [''qwen/qwen3'']"
    by code_simp
  show ?thesis
    using append_keeps_order [OF m p] p f by simp
qed

section \<open>Topic frequency\<close>

lemma unique_Nil [simp]: "unique [] = []"
  by (simp add: unique_def)

lemma unique_snoc:
  "unique (xs @ [x]) = (if x \<in> set (unique xs) then unique xs else unique xs @ [x])"
  by (simp add: unique_def)

lemma set_unique [simp]: "set (unique xs) = set xs"
  by (induction xs rule: rev_induct) (auto simp: unique_snoc)

lemma distinct_unique [simp]: "distinct (unique xs)"
  by (induction xs rule: rev_induct) (auto simp: unique_snoc)

lemma first_index_append:
  "x \<in> set xs \<Longrightarrow> first_index (xs @ ys) x = first_index xs x"
  by (simp add: first_index_def)

lemma first_index_less: "x \<in> set xs \<Longrightarrow> first_index xs x < length xs"
  unfolding first_index_def
  by (induction xs) auto

lemma first_index_new: "x \<notin> set xs \<Longrightarrow> first_index (xs @ [x]) x = length xs"
  unfolding first_index_def
  by (induction xs) auto

lemma unique_sorted_by_first_index:
  "sorted_wrt (\<lambda>a b. first_index xs a < first_index xs b) (unique xs)"
proof (induction xs rule: rev_induct)
  case Nil
  then show ?case by simp
next
  case (snoc x xs)
  have mono: "sorted_wrt (\<lambda>a b. first_index (xs @ [x]) a < first_index (xs @ [x]) b) (unique xs)"
    using snoc
    by (rule sorted_wrt_mono_rel [rotated]) (simp add: first_index_append)
  show ?case
  proof (cases "x \<in> set xs")
    case True
    then show ?thesis using mono by (simp add: unique_snoc)
  next
    case False
    then show ?thesis
      using mono
      by (auto simp: unique_snoc sorted_wrt_append first_index_append first_index_new
          first_index_less)
  qed
qed

lemma insort_key_stable:
  fixes f :: "'a \<Rightarrow> int"
  assumes "sorted_wrt (\<lambda>a b. f a < f b \<or> (f a = f b \<and> P a b)) ys"
    and "\<forall>y \<in> set ys. P x y"
  shows "sorted_wrt (\<lambda>a b. f a < f b \<or> (f a = f b \<and> P a b)) (insort_key f x ys)"
  using assms
proof (induction ys)
  case Nil
  then show ?case by simp
next
  case (Cons y ys)
  show ?case
  proof (cases "f x \<le> f y")
    case True
    have "\<forall>z \<in> set (y # ys). f x < f z \<or> (f x = f z \<and> P x z)"
      using True Cons.prems by fastforce
    then show ?thesis using True Cons.prems(1) by simp
  next
    case False
    then show ?thesis using Cons by (auto simp: set_insort_key)
  qed
qed

lemma sort_key_stable_wrt:
  fixes f :: "'a \<Rightarrow> int"
  assumes "sorted_wrt P xs"
  shows "sorted_wrt (\<lambda>a b. f a < f b \<or> (f a = f b \<and> P a b)) (sort_key f xs)"
  using assms
proof (induction xs)
  case Nil
  then show ?case by simp
next
  case (Cons x xs)
  then show ?case
    by (simp add: insort_key_stable)
qed

lemma count_run_fold:
  "fold count_run rs (n, tc)
     = (n + length (filter success rs),
        fold count_topic
          (concat (map (\<lambda>r. case topics r of None \<Rightarrow> [] | Some ts \<Rightarrow> ts) (filter success rs))) tc)"
  by (induction rs arbitrary: n tc) (auto simp: count_run_def)

lemma count_model_fold:
  "fold count_model ms (n, tc)
     = (n + length (filter success (concat (map runs ms))),
        fold count_topic (successful_topics ms) tc)"
proof (induction ms arbitrary: n tc)
  case Nil
  then show ?case by (simp add: successful_topics_def)
next
  case (Cons m ms)
  show ?case
    using Cons [of "n + length (filter success (runs m))"
        "fold count_topic
          (concat (map (\<lambda>r. case topics r of None \<Rightarrow> [] | Some ts \<Rightarrow> ts)
             (filter success (runs m)))) tc"]
    by (simp add: count_model_def count_run_fold successful_topics_def)
qed

lemma replace_value_map:
  "distinct L \<Longrightarrow>
   replace_value x v (map (\<lambda>t. (t, g t)) L) = map (\<lambda>t. (t, if t = x then v else g t)) L"
  by (induction L) auto

lemma map_of_counts:
  "map_of (map (\<lambda>t. (t, g t)) L) x = (if x \<in> set L then Some (g x) else None)"
  by (induction L) auto

lemma count_topic_step:
  assumes "distinct L" and "ordinary_label x"
  shows "count_topic x (map (\<lambda>t. (t, Count (g t))) L)
           = (if x \<in> set L then map (\<lambda>t. (t, Count (if t = x then g x + 1 else g t))) L
              else map (\<lambda>t. (t, Count (g t))) L @ [(x, Count 1)])"
proof -
  have p: "x \<noteq> ''__proto__''" "x \<notin> set prototype_names" "\<not> isArrayIndex x"
    using assms(2) by (auto simp: ordinary_label_def prototype_names_def)
  have r: "replace_value x (Count (g x + 1)) (map (\<lambda>t. (t, Count (g t))) L)
             = map (\<lambda>t. (t, Count (if t = x then g x + 1 else g t))) L"
    using replace_value_map [OF assms(1), of x "Count (g x + 1)" "\<lambda>t. Count (g t)"]
    by (simp add: if_distrib cong: if_cong)
  show ?thesis
  proof (cases "x \<in> set L")
    case True
    then show ?thesis
      using r by (simp add: count_topic_def obj_get_def obj_set_def map_of_counts image_image)
  next
    case False
    then show ?thesis
      using p
      by (auto simp: count_topic_def obj_get_def obj_set_def map_of_counts image_image)
  qed
qed

lemma topic_counts:
  assumes "\<forall>t \<in> set ts. ordinary_label t"
  shows "fold count_topic ts [] = map (\<lambda>t. (t, Count (count_list ts t))) (unique ts)"
  using assms
proof (induction ts rule: rev_induct)
  case Nil
  then show ?case by simp
next
  case (snoc x ts)
  then have ih: "fold count_topic ts [] = map (\<lambda>t. (t, Count (count_list ts t))) (unique ts)"
    and nx: "ordinary_label x"
    by auto
  have step: "count_topic x (map (\<lambda>t. (t, Count (count_list ts t))) (unique ts))
           = (if x \<in> set (unique ts)
              then map (\<lambda>t. (t, Count (if t = x then count_list ts x + 1 else count_list ts t)))
                     (unique ts)
              else map (\<lambda>t. (t, Count (count_list ts t))) (unique ts) @ [(x, Count 1)])"
    using distinct_unique nx by (rule count_topic_step)
  show ?case
  proof (cases "x \<in> set ts")
    case True
    then show ?thesis
      using step ih by (simp add: unique_snoc)
  next
    case False
    then have "count_list ts x = 0" by (simp add: count_list_0_iff)
    then show ?thesis
      using step ih False by (auto simp: unique_snoc)
  qed
qed

lemma numeric_entries_counts:
  "numeric_entries (map (\<lambda>t. (t, Count (g t))) L) = Some (map (\<lambda>t. (t, g t)) L)"
  by (simp add: numeric_entries_def list_all_iff comp_def)

lemma fromEntries_plain:
  assumes "distinct (map fst (acc @ es))" and "\<forall>e \<in> set es. \<not> isArrayIndex (fst e)"
  shows "fold (\<lambda>(k, v) obj. obj_set obj k v) es acc = acc @ es"
  using assms
proof (induction es arbitrary: acc)
  case Nil
  then show ?case by simp
next
  case (Cons e es)
  obtain k v where e: "e = (k, v)" by (cases e)
  have "obj_set acc k v = acc @ [(k, v)]"
    using Cons.prems e by (auto simp: obj_set_def)
  moreover have "distinct (map fst ((acc @ [(k, v)]) @ es))"
    using Cons.prems(1) e by simp
  ultimately show ?case
    using Cons.IH [of "acc @ [(k, v)]"] Cons.prems(2) e by simp
qed

lemma topic_frequency_eq:
  assumes "\<forall>t \<in> set (successful_topics ms). ordinary_label t"
  shows "topic_frequency (computeStats ms)
           = Some (take 20 (sort_desc (map (\<lambda>t. (t, count_list (successful_topics ms) t))
                                          (unique (successful_topics ms)))))"
proof -
  let ?all = "successful_topics ms"
  let ?E = "map (\<lambda>t. (t, count_list ?all t)) (unique ?all)"
  have tc: "fold count_model ms (0, [])
              = (length (filter success (concat (map runs ms))),
                 map (\<lambda>t. (t, Count (count_list ?all t))) (unique ?all))"
    using count_model_fold [of ms 0 "[]"] topic_counts [OF assms] by simp
  have set_sorted: "set (take 20 (sort_desc ?E)) \<subseteq> set ?E"
    using set_take_subset [of 20 "sort_desc ?E"] by (simp add: sort_desc_def)
  have "distinct (map fst (sort_desc ?E))"
    by (simp add: sort_desc_def distinct_map inj_on_def comp_def)
  then have d: "distinct (map fst (take 20 (sort_desc ?E)))"
    by (simp add: take_map [symmetric] distinct_take)
  have "\<forall>e \<in> set (take 20 (sort_desc ?E)). \<not> isArrayIndex (fst e)"
    using set_sorted assms by (auto simp: ordinary_label_def)
  then have "Object_fromEntries (take 20 (sort_desc ?E)) = take 20 (sort_desc ?E)"
    using fromEntries_plain [of "[]" "take 20 (sort_desc ?E)"] d
    by (simp add: Object_fromEntries_def)
  then show ?thesis
    using tc by (simp add: computeStats_def Object_entries_def numeric_entries_counts)
qed

lemma sort_desc_order:
  "sorted_wrt (\<lambda>a b. snd b < snd a
                  \<or> (snd a = snd b \<and> first_index xs (fst a) < first_index xs (fst b)))
     (sort_desc (map (\<lambda>t. (t, g t)) (unique xs)))"
proof -
  have "sorted_wrt (\<lambda>a b. first_index xs (fst a) < first_index xs (fst b))
          (map (\<lambda>t. (t, g t)) (unique xs))"
    using unique_sorted_by_first_index [of xs] by (simp add: sorted_wrt_map)
  then have "sorted_wrt (\<lambda>a b. - int (snd a) < - int (snd b)
                \<or> (- int (snd a) = - int (snd b)
                    \<and> first_index xs (fst a) < first_index xs (fst b)))
     (sort_key (\<lambda>e. - int (snd e)) (map (\<lambda>t. (t, g t)) (unique xs)))"
    by (rule sort_key_stable_wrt)
  then show ?thesis
    by (simp add: sort_desc_def)
qed

text \<open>Every label that the classifier can produce is an ordinary key.\<close>

lemma registry_labels_ordinary: "\<forall>t \<in> set (map fst topicKeywords). ordinary_label t"
  by code_simp

lemma detected_labels_ordinary: "\<forall>t \<in> set (detectTopics text). ordinary_label t"
  using registry_labels_ordinary
  by (auto simp: detectTopics_def topics_loop_filter)

text \<open>The datasets that the script writes carry such labels when the data file does.\<close>

lemma successful_topics_append:
  "successful_topics (xs @ ys) = successful_topics xs @ successful_topics ys"
  by (simp add: successful_topics_def)

lemma attach_topics_labels:
  assumes "attach_topics r = Inr r'" and "success r'"
  shows "\<exists>text. topics r' = Some (detectTopics text)"
proof (cases "success r")
  case False
  then show ?thesis using assms by (simp add: attach_topics_def)
next
  case True
  then obtain ts where ts: "detectTopics_value (content r) = Inr ts"
    and r': "r' = r\<lparr>topics := Some ts\<rparr>"
    using assms(1) by (auto simp: attach_topics_def and_then_def split: sum.splits)
  obtain s where "ts = detectTopics s"
    using ts by (auto simp: detectTopics_value_def split: option.splits json.splits)
  then show ?thesis using r' by auto
qed

lemma run_once_labels:
  assumes "run_once remote modelId p t maxTokens k sent = (Inr r, sent')" and "success r"
  shows "\<exists>text. topics r = Some (detectTopics text)"
proof -
  obtain r0 where "attach_topics r0 = Inr r"
    using assms(1)
    by (auto simp: run_once_def and_then_def split: prod.splits sum.splits)
  then show ?thesis using assms(2) by (rule attach_topics_labels)
qed

lemma runs_loop_labels:
  assumes "runs_loop remote modelId p t maxTokens k n rs sent = (Inr out, sent')"
    and "r \<in> set out" and "success r"
  shows "r \<in> set rs \<or> (\<exists>text. topics r = Some (detectTopics text))"
  using assms
proof (induction n arbitrary: rs sent)
  case 0
  then show ?case by simp
next
  case (Suc n)
  obtain res s1 where ro: "run_once remote modelId p t maxTokens k sent = (res, s1)"
    by (cases "run_once remote modelId p t maxTokens k sent")
  show ?case
  proof (cases res)
    case (Inl e)
    then show ?thesis using ro Suc.prems by simp
  next
    case (Inr r1)
    then have "runs_loop remote modelId p t maxTokens k n (rs @ [r1]) s1 = (Inr out, sent')"
      using ro Suc.prems(1) by simp
    then have "r \<in> set (rs @ [r1]) \<or> (\<exists>text. topics r = Some (detectTopics text))"
      using Suc.IH Suc.prems(2,3) by blast
    then show ?thesis
      using run_once_labels [of remote modelId p t maxTokens k sent r1 s1] ro Inr Suc.prems(3)
      by auto
  qed
qed

lemma new_runs_ordinary:
  assumes "runs_loop remote modelId p t maxTokens k n [] sent = (Inr out, sent')"
  shows "\<forall>t \<in> set (successful_topics [new_entry m out]). ordinary_label t"
proof -
  have "\<exists>text. topics r = Some (detectTopics text)" if "r \<in> set out" "success r" for r
    using runs_loop_labels [OF assms that] by simp
  then show ?thesis
    using detected_labels_ordinary
    by (fastforce simp: successful_topics_def new_entry_def)
qed

lemma models_loop_ordinary:
  assumes "models_loop remote p t maxTokens k n existingIds ms results sent = (Inr res, sent')"
    and "\<forall>t \<in> set (successful_topics results). ordinary_label t"
  shows "\<forall>t \<in> set (successful_topics res). ordinary_label t"
  using assms
proof (induction ms arbitrary: results sent)
  case Nil
  then show ?case by simp
next
  case (Cons m ms)
  show ?case
  proof (cases "id_m m \<in> existingIds")
    case True
    then show ?thesis using Cons by simp
  next
    case False
    obtain r1 s1 where rl: "runs_loop remote (id_m m) p t maxTokens k n [] sent = (r1, s1)"
      by (cases "runs_loop remote (id_m m) p t maxTokens k n [] sent")
    show ?thesis
    proof (cases r1)
      case (Inl e)
      then show ?thesis using rl False Cons.prems by simp
    next
      case (Inr rs)
      then have ml: "models_loop remote p t maxTokens k n existingIds ms
                   (results @ [new_entry m rs]) s1 = (Inr res, sent')"
        using rl False Cons.prems by simp
      have "\<forall>t \<in> set (successful_topics (results @ [new_entry m rs])). ordinary_label t"
        using Cons.prems(2) new_runs_ordinary [of remote "id_m m" p t maxTokens k n sent rs s1 m]
          rl Inr
        by (auto simp: successful_topics_append)
      then show ?thesis
        using Cons.IH [OF ml] by simp
    qed
  qed
qed

lemma written_topics_ordinary:
  assumes "main args env_key loaded data_file remote now = (Written ds, sent)"
    and "\<forall>old. data_file = Inr (Some old)
           \<longrightarrow> (\<forall>t \<in> set (successful_topics old). ordinary_label t)"
  shows "stats ds = computeStats (models_out ds)
         \<and> (\<forall>t \<in> set (successful_topics (models_out ds)). ordinary_label t)"
proof -
  obtain config p t mt k n ids ms old where
    ml: "models_loop remote p t mt k n ids ms old [] = (Inr (models_out ds), sent)"
    and st: "stats ds = computeStats (models_out ds)"
    and old: "old = [] \<or> data_file = Inr (Some old)"
    using assms(1)
    by (auto simp: main_def Let_def split: if_splits sum.splits prod.splits option.splits)
  have "\<forall>t \<in> set (successful_topics old). ordinary_label t"
    using old assms(2) by (auto simp: successful_topics_def)
  then show ?thesis
    using models_loop_ordinary [OF ml] st by simp
qed

text \<open>
  C4. The topics of a run are the labels that the classifier gave it, in this run of the
  script or in the one that wrote the data file, and those are ordinary keys
  (\<open>detected_labels_ordinary\<close>). For every sequence of model entries with such topics,
  \<open>topic_frequency\<close> is a list of at most 20 entries with distinct topics; each entry
  holds a topic of a successful run with exactly the number of its occurrences over the
  successful runs (failed runs add nothing); the counts never increase along the entries,
  and of two entries with equal counts the first is the one whose topic was encountered
  first; a topic that is left out has a count no larger than any listed one.
\<close>

theorem topic_frequency_counts:
  fixes ms :: "ModelEntry list"
  defines "occ \<equiv> successful_topics ms"
  assumes "\<forall>t \<in> set occ. ordinary_label t"
  shows "\<exists>tf. topic_frequency (computeStats ms) = Some tf
         \<and> length tf \<le> 20
         \<and> distinct (map fst tf)
         \<and> (\<forall>e \<in> set tf. fst e \<in> set occ \<and> snd e = count_list occ (fst e))
         \<and> (\<forall>i j. i < j \<and> j < length tf \<longrightarrow>
               snd (tf ! j) \<le> snd (tf ! i)
               \<and> (snd (tf ! j) = snd (tf ! i)
                    \<longrightarrow> first_index occ (fst (tf ! i)) < first_index occ (fst (tf ! j))))
         \<and> (\<forall>t \<in> set occ. t \<in> fst ` set tf
               \<or> (length tf = 20 \<and> (\<forall>e \<in> set tf. count_list occ t \<le> snd e)))"
proof -
  let ?E = "map (\<lambda>t. (t, count_list occ t)) (unique occ)"
  let ?S = "sort_desc ?E"
  let ?R = "\<lambda>a b. snd b < snd a
                  \<or> (snd a = snd b \<and> first_index occ (fst a) < first_index occ (fst b))"
  define tf where "tf = take 20 ?S"
  have 0: "topic_frequency (computeStats ms) = Some tf"
    using assms(2) unfolding occ_def tf_def by (rule topic_frequency_eq)
  have setS: "set ?S = set ?E"
    by (simp add: sort_desc_def)
  have sub: "set tf \<subseteq> set ?E"
    using set_take_subset [of 20 ?S] setS tf_def by simp
  have sortedS: "sorted_wrt ?R ?S"
    by (rule sort_desc_order)
  have 1: "length tf \<le> 20"
    using tf_def by simp
  have "distinct (map fst ?S)"
    by (simp add: sort_desc_def distinct_map inj_on_def comp_def)
  then have 2: "distinct (map fst tf)"
    using tf_def by (simp add: take_map [symmetric] distinct_take)
  have 3: "\<forall>e \<in> set tf. fst e \<in> set occ \<and> snd e = count_list occ (fst e)"
    using sub by auto
  have sorted_tf: "sorted_wrt ?R tf"
    using sortedS tf_def by (simp add: sorted_wrt_take)
  have 4: "\<forall>i j. i < j \<and> j < length tf \<longrightarrow>
               snd (tf ! j) \<le> snd (tf ! i)
               \<and> (snd (tf ! j) = snd (tf ! i)
                    \<longrightarrow> first_index occ (fst (tf ! i)) < first_index occ (fst (tf ! j)))"
  proof (intro allI impI)
    fix i j
    assume "i < j \<and> j < length tf"
    then have "?R (tf ! i) (tf ! j)"
      using sorted_wrt_nth_less [OF sorted_tf, of i j] by simp
    then show "snd (tf ! j) \<le> snd (tf ! i)
               \<and> (snd (tf ! j) = snd (tf ! i)
                    \<longrightarrow> first_index occ (fst (tf ! i)) < first_index occ (fst (tf ! j)))"
      by auto
  qed
  have 5: "t \<in> fst ` set tf \<or> (length tf = 20 \<and> (\<forall>e \<in> set tf. count_list occ t \<le> snd e))"
    if t: "t \<in> set occ" for t
  proof (cases "t \<in> fst ` set tf")
    case True
    then show ?thesis by simp
  next
    case False
    have "(t, count_list occ t) \<in> set ?S"
      using t setS by auto
    then have "(t, count_list occ t) \<in> set (take 20 ?S) \<union> set (drop 20 ?S)"
      by (metis append_take_drop_id set_append)
    then have in_drop: "(t, count_list occ t) \<in> set (drop 20 ?S)"
      using False tf_def by force
    then have "20 < length ?S"
      by (cases "20 < length ?S") auto
    then have len: "length tf = 20"
      using tf_def by simp
    have "sorted_wrt ?R (take 20 ?S @ drop 20 ?S)"
      using sortedS by simp
    then have "\<forall>a \<in> set (take 20 ?S). \<forall>b \<in> set (drop 20 ?S). ?R a b"
      unfolding sorted_wrt_append by blast
    then have "\<forall>e \<in> set tf. count_list occ t \<le> snd e"
      using in_drop tf_def by fastforce
    then show ?thesis using len by simp
  qed
  show ?thesis
    using 0 1 2 3 4 5 by blast
qed

lemma tied_eval:
  "topic_frequency (computeStats tied_topics)
     = Some [(''sloths'', 2), (''jellyfish'', 2), (''octopus'', 1)]"
  "successful_topics tied_topics
     = [''sloths'', ''jellyfish'', ''jellyfish'', ''octopus'', ''sloths'']"
  by code_simp+

lemma tied_ordinary: "\<forall>t \<in> set (successful_topics tied_topics). ordinary_label t"
  by code_simp

theorem topic_frequency_counts_witness:
  "list_all ordinary_label (successful_topics tied_topics)
   \<and> topic_frequency (computeStats tied_topics)
       = Some [(''sloths'', 2), (''jellyfish'', 2), (''octopus'', 1)]
   \<and> count_list (successful_topics tied_topics) ''sloths'' = 2
   \<and> first_index (successful_topics tied_topics) ''sloths''
       < first_index (successful_topics tied_topics) ''jellyfish''"
proof -
  let ?occ = "successful_topics tied_topics"
  let ?tf = "[(''sloths'', 2), (''jellyfish'', 2), (''octopus'', 1 :: nat)]"
  note t = topic_frequency_counts [OF tied_ordinary]
  from t obtain tf where all:
    "topic_frequency (computeStats tied_topics) = Some tf
         \<and> length tf \<le> 20
         \<and> distinct (map fst tf)
         \<and> (\<forall>e \<in> set tf. fst e \<in> set ?occ \<and> snd e = count_list ?occ (fst e))
         \<and> (\<forall>i j. i < j \<and> j < length tf \<longrightarrow>
               snd (tf ! j) \<le> snd (tf ! i)
               \<and> (snd (tf ! j) = snd (tf ! i)
                    \<longrightarrow> first_index ?occ (fst (tf ! i)) < first_index ?occ (fst (tf ! j))))
         \<and> (\<forall>t \<in> set ?occ. t \<in> fst ` set tf
               \<or> (length tf = 20 \<and> (\<forall>e \<in> set tf. count_list ?occ t \<le> snd e)))" ..
  have eq: "tf = ?tf"
    using all [THEN conjunct1] by (simp add: tied_eval(1))
  note e = all [THEN conjunct2, THEN conjunct2, THEN conjunct2, THEN conjunct1]
  note o = all [THEN conjunct2, THEN conjunct2, THEN conjunct2, THEN conjunct2, THEN conjunct1]
  have "(''sloths'', 2) \<in> set tf"
    by (simp add: eq)
  then have "snd (''sloths'', 2 :: nat) = count_list ?occ (fst (''sloths'', 2 :: nat))"
    using e by blast
  then have a: "count_list ?occ ''sloths'' = 2"
    by simp
  have "(0::nat) < 1 \<and> 1 < length tf"
    by (simp add: eq)
  then have "snd (tf ! 1) = snd (tf ! 0)
             \<longrightarrow> first_index ?occ (fst (tf ! 0)) < first_index ?occ (fst (tf ! 1))"
    using o by blast
  then have b: "first_index ?occ ''sloths'' < first_index ?occ ''jellyfish''"
    by (simp add: eq)
  have c: "list_all ordinary_label ?occ"
    using tied_ordinary by (simp add: list_all_iff)
  show ?thesis
    using a b c tied_eval(1) by blast
qed

text \<open>
  Outside these labels the order of the entries is not the order of the counts: array
  indices are enumerated first, in ascending order; an inherited function name makes its
  count a string; \<open>__proto__\<close> is never stored.
\<close>

lemma array_index_labels:
  "successful_topics numbered_topics = [''1'', ''2'', ''2'']"
  "topic_frequency (computeStats numbered_topics) = Some [(''1'', 1), (''2'', 2)]"
  by code_simp+

lemma inherited_labels:
  "topic_frequency (computeStats constructor_topic) = None"
  "topic_frequency (computeStats proto_topic) = Some [(''sloths'', 1)]"
  by code_simp+

end
